theory Spec2Isabelle
  imports Complex_Main "HOL-Library.Monad_Syntax"
begin

section \<open>Blood pressure monitor (main.cpp): data model\<close>

text \<open>
  The program computes with C++ \<open>double\<close>. The embedding takes a finite double to be
  the real number it denotes and, but for the sample normalizer, every arithmetic operation
  to be exact: rounding is not modelled there. The normalizer takes the rounding of its
  additions and of its division as a parameter, which is the identity in the rest of the
  program. The single non-finite value the program can produce is the quotient
  \<open>0.0 / 0.0\<close> of \<open>calculate_normalized_pressure\<close> on an all-zero queue, a NaN;
  it is kept as a value of its own, and every ordered comparison with it is false, as in
  IEEE 754. \<open>abs\<close> is the \<open>double\<close> overload.
\<close>

datatype fp = NaN | Fin real

fun fp_gt :: "fp \<Rightarrow> real \<Rightarrow> bool" where
  "fp_gt NaN c = False"
| "fp_gt (Fin x) c = (x > c)"

fun fp_lt :: "fp \<Rightarrow> real \<Rightarrow> bool" where
  "fp_lt NaN c = False"
| "fp_lt (Fin x) c = (x < c)"

fun fp_sub :: "fp \<Rightarrow> real \<Rightarrow> fp" where
  "fp_sub NaN c = NaN"
| "fp_sub (Fin x) c = Fin (x - c)"

definition OUTPUT_MAX :: real where "OUTPUT_MAX = 3774873"
definition OUTPUT_MIN :: real where "OUTPUT_MIN = 419430"
definition PRESSURE_MAX :: real where "PRESSURE_MAX = 300"
definition PRESSURE_MIN :: real where "PRESSURE_MIN = 0"
definition MIN_OMWE_THRESH :: real where "MIN_OMWE_THRESH = 70"
definition MAX_OMWE_THRESH :: real where "MAX_OMWE_THRESH = 160"
definition MAP_ERROR_THRESH :: real where "MAP_ERROR_THRESH = 5 / 10"
definition SYSTOLIC_LOWER_CHAR_RATIO :: real where "SYSTOLIC_LOWER_CHAR_RATIO = 45 / 100"
definition SYSTOLIC_UPPER_CHAR_RATIO :: real where "SYSTOLIC_UPPER_CHAR_RATIO = 73 / 100"
definition DIASTOLIC_LOWER_CHAR_RATIO :: real where "DIASTOLIC_LOWER_CHAR_RATIO = 69 / 100"
definition DIASTOLIC_UPPER_CHAR_RATIO :: real where "DIASTOLIC_UPPER_CHAR_RATIO = 83 / 100"
definition LOWER_PULSE_RANGE :: real where "LOWER_PULSE_RANGE = 35"
definition UPPER_PULSE_RANGE :: real where "UPPER_PULSE_RANGE = 150"

text \<open>\<open>long\<close> is 32 bits wide on the STM32F429; incrementing \<open>LONG_MAX\<close> is undefined.\<close>

definition LONG_MAX :: nat where "LONG_MAX = 2147483647"

record BP_PARAMETER =
  systolic_bloodpressure :: real
  diastolic_bloodpressure :: real
  systolic_char_ratio :: real
  diastolic_char_ratio :: real


text \<open>
  The global variables. The three OMWE arrays and the queue are lists whose length is the
  array's capacity; the two buffer pointers and \<open>iteration\<close> start at zero and are only
  ever incremented, so they are natural numbers. The \<open>DigitalOut\<close> pins are the
  Boolean last written to them.
\<close>

record session_state =
  current_pressure :: real
  release_rate :: fp
  buffer_queue :: "real list"
  omwegraph_absicissa_buffer :: "real list"
  omwegraph_ordinate_buffer :: "real list"
  omwe_buffer_time :: "real list"
  pressure_diff :: real
  previous_pressure_diff :: real
  peak_pressure_diff :: real
  Mean_Arterial_Pressure :: fp
  caliberated_MIN_OUT :: int
  iteration :: nat
  omwebuffer_pointer :: nat
  omwetime_buffer_pointer :: nat
  active_recordflag :: bool
  end_record :: bool
  active_flag :: bool
  max_pressure :: bool
  flux_warning :: bool

definition initial_state :: session_state where
  "initial_state =
     \<lparr> current_pressure = 0, release_rate = Fin 0,
       buffer_queue = [0, 0, 0, 0, 0],
       omwegraph_absicissa_buffer = replicate 1000 0,
       omwegraph_ordinate_buffer = replicate 1000 0,
       omwe_buffer_time = replicate 1000 0,
       pressure_diff = 0, previous_pressure_diff = 0, peak_pressure_diff = 0,
       Mean_Arterial_Pressure = Fin 0,
       caliberated_MIN_OUT = 0, iteration = 0,
       omwebuffer_pointer = 0, omwetime_buffer_pointer = 0,
       active_recordflag = False, end_record = False,
       active_flag = False, max_pressure = False, flux_warning = False \<rparr>"

text \<open>
  What one call of \<open>measure_pressure\<close> takes from its collaborators: the push button,
  the three data bytes of the SPI answer already concatenated (line 313), and the values
  of the first and of the second \<open>pulse_count_timer.read_ms()\<close> the call may make.
\<close>

record sensor_sample =
  dataread_push_button :: bool
  spi_pressure_data :: int
  read_ms_first :: int
  read_ms_second :: int

text \<open>An access outside an array is undefined behaviour: the model stops with \<open>None\<close>.\<close>

definition array_load :: "real list \<Rightarrow> nat \<Rightarrow> real option" where
  "array_load a i = (if i < length a then Some (a ! i) else None)"

definition array_store :: "real list \<Rightarrow> nat \<Rightarrow> real \<Rightarrow> real list option" where
  "array_store a i v = (if i < length a then Some (a[i := v]) else None)"

section \<open>Sample normalizer\<close>

text \<open>
  The loop of \<open>calculate_normalized_pressure\<close>. \<open>rnd\<close> rounds the result of an addition
  to \<open>total_value\<close> and of the final division; \<open>total_count\<close> runs through the integers
  0 to 5, which are doubles, so that its additions are exact.
\<close>

function normalized_pressure_loop :: "(real \<Rightarrow> real) \<Rightarrow> real list \<Rightarrow> nat \<Rightarrow> real \<Rightarrow> real \<Rightarrow> real \<times> real" where
  "normalized_pressure_loop rnd q i total_value total_count =
     (if i < 5 then
        (if q ! i \<noteq> 0
         then normalized_pressure_loop rnd q (Suc i) (rnd (total_value + q ! i)) (total_count + 1)
         else normalized_pressure_loop rnd q (Suc i) total_value total_count)
      else (total_value, total_count))"
  by pat_completeness auto
termination
  by (relation "measure (\<lambda>(r, q, i, v, c). 5 - i)") auto

declare normalized_pressure_loop.simps [simp del]

definition calculate_normalized_pressure_rnd :: "(real \<Rightarrow> real) \<Rightarrow> real list \<Rightarrow> fp" where
  "calculate_normalized_pressure_rnd rnd q =
     (case normalized_pressure_loop rnd q 0 0 0 of
        (total_value, total_count) \<Rightarrow>
          if total_count = 0 then NaN else Fin (rnd (total_value / total_count)))"

text \<open>The normalizer in exact arithmetic, as the rest of the model uses it.\<close>

definition calculate_normalized_pressure :: "real list \<Rightarrow> fp" where
  "calculate_normalized_pressure q = calculate_normalized_pressure_rnd (\<lambda>x. x) q"

text \<open>
  The rounding of binary64 arithmetic, to nearest with ties to the even significand, on
  the range of the normal numbers: a real \<open>x\<close> with \<open>2^e \<le> |x| < 2^(e+1)\<close> goes to the
  nearest multiple of \<open>2^(e-52)\<close>.
\<close>

definition pow2 :: "int \<Rightarrow> real" where
  "pow2 e = (if 0 \<le> e then 2 ^ nat e else 1 / 2 ^ nat (- e))"

definition round_half_even :: "real \<Rightarrow> int" where
  "round_half_even y =
     (let f = \<lfloor>y\<rfloor>; d = y - of_int f
      in if d < 1 / 2 then f else if 1 / 2 < d then f + 1 else if even f then f else f + 1)"

definition double_round :: "real \<Rightarrow> real" where
  "double_round x =
     (if x = 0 then 0
      else let e = \<lfloor>log 2 \<bar>x\<bar>\<rfloor>
           in of_int (round_half_even (x / pow2 (e - 52))) * pow2 (e - 52))"

section \<open>MAP tracker and gradient monitor\<close>

definition MAP_calculator :: "session_state \<Rightarrow> session_state" where
  "MAP_calculator s =
     (let normalized_pressure = calculate_normalized_pressure (buffer_queue s) in
      if pressure_diff s > peak_pressure_diff s
         \<and> fp_gt normalized_pressure MIN_OMWE_THRESH \<and> fp_lt normalized_pressure 110
      then s\<lparr> peak_pressure_diff := pressure_diff s,
              Mean_Arterial_Pressure := calculate_normalized_pressure (buffer_queue s) \<rparr>
      else s)"

definition check_pressure_gradient_ISR :: "session_state \<Rightarrow> session_state" where
  "check_pressure_gradient_ISR s =
     (if iteration s > 5 then
        (let s1 = s\<lparr> release_rate :=
                       fp_sub (calculate_normalized_pressure (buffer_queue s))
                              (current_pressure s) \<rparr>
         in if fp_gt (release_rate s1) 4
            then s1\<lparr> flux_warning := True \<rparr>
            else s1\<lparr> flux_warning := False \<rparr>)
      else s)"

section \<open>Envelope tracker\<close>

definition scaler :: real where
  "scaler = (PRESSURE_MAX - PRESSURE_MIN) / (OUTPUT_MAX - OUTPUT_MIN)"

text \<open>Lines 326 to 333: the peak time, at least 500 ms after the last recorded one.\<close>

definition record_peak_time :: "sensor_sample \<Rightarrow> session_state \<Rightarrow> session_state option" where
  "record_peak_time inp s =
     (if omwetime_buffer_pointer s > 0 then
        do {
          last_time \<leftarrow> array_load (omwe_buffer_time s) (omwetime_buffer_pointer s - 1);
          if real_of_int (read_ms_first inp) - last_time > 500 then
            do {
              b \<leftarrow> array_store (omwe_buffer_time s) (omwetime_buffer_pointer s)
                     (real_of_int (read_ms_second inp));
              Some (s\<lparr> omwe_buffer_time := b,
                       omwetime_buffer_pointer := Suc (omwetime_buffer_pointer s) \<rparr>)
            }
          else Some s
        }
      else
        do {
          b \<leftarrow> array_store (omwe_buffer_time s) (omwetime_buffer_pointer s)
                 (real_of_int (read_ms_first inp));
          Some (s\<lparr> omwe_buffer_time := b,
                   omwetime_buffer_pointer := Suc (omwetime_buffer_pointer s) \<rparr>)
        })"

text \<open>Lines 334 and 335: the envelope point.\<close>

definition record_envelope_point :: "real \<Rightarrow> session_state \<Rightarrow> session_state option" where
  "record_envelope_point normalized_pressure s =
     do {
       ob \<leftarrow> array_store (omwegraph_ordinate_buffer s) (omwebuffer_pointer s)
              (previous_pressure_diff s);
       ab \<leftarrow> array_store (omwegraph_absicissa_buffer s) (omwebuffer_pointer s)
              normalized_pressure;
       Some (s\<lparr> omwegraph_ordinate_buffer := ob,
                omwegraph_absicissa_buffer := ab,
                omwebuffer_pointer := Suc (omwebuffer_pointer s) \<rparr>)
     }"

text \<open>Lines 322 to 339. With a NaN for the normalized pressure the outer test is false.\<close>

definition record_oscillation :: "sensor_sample \<Rightarrow> fp \<Rightarrow> session_state \<Rightarrow> session_state option" where
  "record_oscillation inp normalized s =
     (case normalized of
        NaN \<Rightarrow> Some s
      | Fin normalized_pressure \<Rightarrow>
          if active_recordflag s \<and> \<bar>current_pressure s - normalized_pressure\<bar> < 12 then
            do {
              let s1 = s\<lparr> pressure_diff := \<bar>current_pressure s - normalized_pressure\<bar> \<rparr>;
              s2 \<leftarrow> (if normalized_pressure > MIN_OMWE_THRESH
                        \<and> normalized_pressure < MAX_OMWE_THRESH then
                       (if pressure_diff s1 < previous_pressure_diff s1 then
                          do {
                            s' \<leftarrow> record_peak_time inp s1;
                            record_envelope_point normalized_pressure s'
                          }
                        else Some s1)
                     else Some s1);
              Some (s2\<lparr> previous_pressure_diff := pressure_diff s2 \<rparr>)
            }
          else Some s)"

text \<open>Line 340: \<open>buffer_queue[iteration++ % 5] = pressure_value\<close>.\<close>

definition store_sample :: "real \<Rightarrow> session_state \<Rightarrow> session_state option" where
  "store_sample pressure_value s =
     (if iteration s < LONG_MAX then
        do {
          q \<leftarrow> array_store (buffer_queue s) (iteration s mod 5) pressure_value;
          Some (s\<lparr> buffer_queue := q, iteration := Suc (iteration s) \<rparr>)
        }
      else None)"

text \<open>Lines 342 to 348: the maximum-pressure indicator and the end of the recording.\<close>

definition signal_limits :: "fp \<Rightarrow> session_state \<Rightarrow> session_state" where
  "signal_limits normalized_pressure s =
     (let s1 = (if fp_gt normalized_pressure 200 then s\<lparr> max_pressure := True \<rparr> else s)
      in if active_flag s1 \<and> fp_lt normalized_pressure 5
         then s1\<lparr> end_record := True \<rparr>
         else s1)"

text \<open>
  \<open>measure_pressure\<close> without the SPI transaction and the console output. It returns
  the raw reading with the new state.
\<close>

definition measure_pressure :: "sensor_sample \<Rightarrow> session_state \<Rightarrow> (int \<times> session_state) option" where
  "measure_pressure inp s0 =
     (let s1 = (if dataread_push_button inp then s0\<lparr> active_recordflag := True \<rparr> else s0);
          s2 = s1\<lparr> active_flag := active_recordflag s1 \<rparr>;
          pressure_data = spi_pressure_data inp;
          pressure_value = scaler * real_of_int (pressure_data - caliberated_MIN_OUT s2);
          s3 = s2\<lparr> current_pressure := pressure_value \<rparr>;
          normalized_pressure = calculate_normalized_pressure (buffer_queue s3)
      in do {
           s4 \<leftarrow> record_oscillation inp normalized_pressure s3;
           s5 \<leftarrow> store_sample pressure_value s4;
           Some (pressure_data, signal_limits normalized_pressure (MAP_calculator s5))
         })"

section \<open>The session: calibration and sampling loop of main\<close>

text \<open>
  \<open>auto_caliberate\<close>: one hundred readings summed in an \<open>unsigned long\<close> (32 bits,
  wrapping), then divided by 100.
\<close>

fun caliberate_loop :: "sensor_sample list \<Rightarrow> int \<Rightarrow> session_state \<Rightarrow> (int \<times> session_state) option" where
  "caliberate_loop [] default_pressure s = Some (default_pressure, s)"
| "caliberate_loop (inp # ins) default_pressure s =
     (case measure_pressure inp s of
        None \<Rightarrow> None
      | Some (d, s') \<Rightarrow> caliberate_loop ins ((default_pressure + d) mod 2 ^ 32) s')"

definition auto_caliberate :: "(nat \<Rightarrow> sensor_sample) \<Rightarrow> session_state \<Rightarrow> session_state option" where
  "auto_caliberate sensor s =
     (case caliberate_loop (map sensor [0..<100]) 0 s of
        None \<Rightarrow> None
      | Some (default_pressure, s') \<Rightarrow>
          Some (s'\<lparr> caliberated_MIN_OUT := default_pressure div 100 \<rparr>))"

text \<open>
  The loop \<open>while (!end_record) measure_pressure()\<close>, with the ticker's interrupt
  arriving between two samples. The list is what has happened so far; when it is used up
  the state reached is returned, so the result is the state at some point of the session.
  Once \<open>end_record\<close> is set the loop has ended and no reading is taken any more, while
  the ticker, which is never detached, still fires.
\<close>

datatype event = Sample sensor_sample | Ticker

fun sampling_loop :: "event list \<Rightarrow> session_state \<Rightarrow> session_state option" where
  "sampling_loop [] s = Some s"
| "sampling_loop (Ticker # es) s = sampling_loop es (check_pressure_gradient_ISR s)"
| "sampling_loop (Sample inp # es) s =
     (if end_record s then sampling_loop es s
      else case measure_pressure inp s of
             None \<Rightarrow> None
           | Some (d, s') \<Rightarrow> sampling_loop es s')"

definition session :: "(nat \<Rightarrow> sensor_sample) \<Rightarrow> event list \<Rightarrow> session_state option" where
  "session sensor es =
     (case auto_caliberate sensor initial_state of
        None \<Rightarrow> None
      | Some s \<Rightarrow> sampling_loop es s)"

section \<open>Pulse estimator\<close>




section \<open>Systolic and diastolic estimator\<close>

record bp_search =
  systolic_buffer :: int
  diastolic_buffer :: int
  min_systolic_ordinate_error :: real
  min_diastolic_ordinate_error :: real

text \<open>The body of the loop at lines 186 to 197.\<close>

definition bp_search_step :: "real list \<Rightarrow> real list \<Rightarrow> real \<Rightarrow> real \<Rightarrow> nat \<Rightarrow> bp_search \<Rightarrow> bp_search" where
  "bp_search_step absicissa ordinate systolic_ordinate_value diastolic_ordinate_value i b =
     (let b1 = (if \<bar>ordinate ! i - systolic_ordinate_value\<bar> < min_systolic_ordinate_error b
                   \<and> absicissa ! i > 100 \<and> absicissa ! i < 200
                then b\<lparr> min_systolic_ordinate_error := \<bar>ordinate ! i - systolic_ordinate_value\<bar>,
                        systolic_buffer := int i \<rparr>
                else b)
      in if \<bar>ordinate ! i - diastolic_ordinate_value\<bar> < min_diastolic_ordinate_error b1
            \<and> absicissa ! i > 50 \<and> absicissa ! i < 90
         then b1\<lparr> min_diastolic_ordinate_error := \<bar>ordinate ! i - diastolic_ordinate_value\<bar>,
                  diastolic_buffer := int i \<rparr>
         else b1)"

function bp_search_loop :: "real list \<Rightarrow> real list \<Rightarrow> real \<Rightarrow> real \<Rightarrow> nat \<Rightarrow> nat \<Rightarrow> bp_search \<Rightarrow> bp_search" where
  "bp_search_loop absicissa ordinate sv dv pointer i b =
     (if i < pointer
      then bp_search_loop absicissa ordinate sv dv pointer (Suc i)
             (bp_search_step absicissa ordinate sv dv i b)
      else b)"
  by pat_completeness auto
termination
  by (relation "measure (\<lambda>(a, or, sv, dv, p, i, b). p - i)") auto

declare bp_search_loop.simps [simp del]

text \<open>
  The globals the function reads (the two OMWE arrays, \<open>omwebuffer_pointer\<close> and
  \<open>peak_pressure_diff\<close>) are parameters.
\<close>

definition Systolic_and_diastolic_bp_calculator :: "real list \<Rightarrow> real list \<Rightarrow> nat \<Rightarrow> real \<Rightarrow> BP_PARAMETER" where
  "Systolic_and_diastolic_bp_calculator absicissa ordinate pointer peak =
     (let lower_systolic = SYSTOLIC_LOWER_CHAR_RATIO * peak;
          upper_systolic = SYSTOLIC_UPPER_CHAR_RATIO * peak;
          lower_diastolic = DIASTOLIC_LOWER_CHAR_RATIO * peak;
          upper_diastolic = DIASTOLIC_UPPER_CHAR_RATIO * peak;
          systolic_ordinate_value = (lower_systolic + upper_systolic) / 2;
          diastolic_ordinate_value = (lower_diastolic + upper_diastolic) / 2;
          b = bp_search_loop absicissa ordinate systolic_ordinate_value diastolic_ordinate_value
                pointer 0
                \<lparr> systolic_buffer = - 1, diastolic_buffer = - 1,
                  min_systolic_ordinate_error = MAP_ERROR_THRESH + 1,
                  min_diastolic_ordinate_error = MAP_ERROR_THRESH + 1 \<rparr>
      in if systolic_buffer b < 0 \<or> diastolic_buffer b < 0
         then \<lparr> systolic_bloodpressure = - 1, diastolic_bloodpressure = - 1,
                systolic_char_ratio = min_systolic_ordinate_error b,
                diastolic_char_ratio = min_diastolic_ordinate_error b \<rparr>
         else \<lparr> systolic_bloodpressure = absicissa ! nat (systolic_buffer b),
                diastolic_bloodpressure = absicissa ! nat (diastolic_buffer b),
                systolic_char_ratio = min_systolic_ordinate_error b,
                diastolic_char_ratio = min_diastolic_ordinate_error b \<rparr>)"


section \<open>Notions used to state the properties\<close>

text \<open>
  The residuals \<open>|ordinate - target|\<close> of the recorded envelope points whose abscissa
  lies strictly between \<open>lo\<close> and \<open>hi\<close>, in recording order.
\<close>

definition band_residuals :: "real list \<Rightarrow> real list \<Rightarrow> nat \<Rightarrow> real \<Rightarrow> real \<Rightarrow> real \<Rightarrow> real list" where
  "band_residuals absicissa ordinate pointer lo hi target =
     map (\<lambda>(x, y). \<bar>y - target\<bar>)
       (filter (\<lambda>(x, y). lo < x \<and> x < hi)
          (zip (take pointer absicissa) (take pointer ordinate)))"

text \<open>The search loop as a fold over the indices below the pointer.\<close>

definition bp_scan :: "real list \<Rightarrow> real list \<Rightarrow> real \<Rightarrow> real \<Rightarrow> nat \<Rightarrow> bp_search \<Rightarrow> bp_search" where
  "bp_scan a o' sv dv n b = foldl (\<lambda>b i. bp_search_step a o' sv dv i b) b [0..<n]"

text \<open>
  The specification's residual: the closest achieved \<open>|ordinate - target|\<close> over the
  in-band envelope entries.
\<close>

definition closest_residual :: "real list \<Rightarrow> real list \<Rightarrow> nat \<Rightarrow> real \<Rightarrow> real \<Rightarrow> real \<Rightarrow> real" where
  "closest_residual absicissa ordinate pointer lo hi target =
     Min (set (band_residuals absicissa ordinate pointer lo hi target))"




text \<open>A monotonic clock: the values read from the timer, in the order read, never decrease.\<close>

definition clock_monotonic :: "sensor_sample list \<Rightarrow> bool" where
  "clock_monotonic xs = sorted (concat (map (\<lambda>x. [read_ms_first x, read_ms_second x]) xs))"

fun samples_of :: "event list \<Rightarrow> sensor_sample list" where
  "samples_of [] = []"
| "samples_of (Sample x # es) = x # samples_of es"
| "samples_of (Ticker # es) = samples_of es"

text \<open>How one call of \<open>measure_pressure\<close> can change the envelope and the peak times.\<close>

definition same_envelope :: "session_state \<Rightarrow> session_state \<Rightarrow> bool" where
  "same_envelope s s' \<longleftrightarrow>
     omwegraph_absicissa_buffer s' = omwegraph_absicissa_buffer s
     \<and> omwegraph_ordinate_buffer s' = omwegraph_ordinate_buffer s
     \<and> omwebuffer_pointer s' = omwebuffer_pointer s"

definition same_times :: "session_state \<Rightarrow> session_state \<Rightarrow> bool" where
  "same_times s s' \<longleftrightarrow>
     omwe_buffer_time s' = omwe_buffer_time s
     \<and> omwetime_buffer_pointer s' = omwetime_buffer_pointer s"

definition point_appended :: "real \<Rightarrow> session_state \<Rightarrow> session_state \<Rightarrow> bool" where
  "point_appended x s s' \<longleftrightarrow>
     omwebuffer_pointer s < length (omwegraph_absicissa_buffer s)
     \<and> omwebuffer_pointer s < length (omwegraph_ordinate_buffer s)
     \<and> omwegraph_absicissa_buffer s' = (omwegraph_absicissa_buffer s)[omwebuffer_pointer s := x]
     \<and> omwegraph_ordinate_buffer s' =
         (omwegraph_ordinate_buffer s)[omwebuffer_pointer s := previous_pressure_diff s]
     \<and> omwebuffer_pointer s' = Suc (omwebuffer_pointer s)"

definition time_appended :: "sensor_sample \<Rightarrow> session_state \<Rightarrow> session_state \<Rightarrow> bool" where
  "time_appended inp s s' \<longleftrightarrow>
     omwetime_buffer_pointer s < length (omwe_buffer_time s)
     \<and> omwetime_buffer_pointer s' = Suc (omwetime_buffer_pointer s)
     \<and> (if omwetime_buffer_pointer s = 0
        then omwe_buffer_time s' = (omwe_buffer_time s)[0 := real_of_int (read_ms_first inp)]
        else real_of_int (read_ms_first inp)
               - omwe_buffer_time s ! (omwetime_buffer_pointer s - 1) > 500
             \<and> omwe_buffer_time s' =
                 (omwe_buffer_time s)[omwetime_buffer_pointer s := real_of_int (read_ms_second inp)])"

definition time_too_close :: "sensor_sample \<Rightarrow> session_state \<Rightarrow> bool" where
  "time_too_close inp s \<longleftrightarrow>
     0 < omwetime_buffer_pointer s
     \<and> real_of_int (read_ms_first inp)
          - omwe_buffer_time s ! (omwetime_buffer_pointer s - 1) \<le> 500"

text \<open>
  The recorded peak times lie inside the time buffer and each is more than 500 ms after
  the one before.
\<close>

definition times_spaced :: "session_state \<Rightarrow> bool" where
  "times_spaced s \<longleftrightarrow>
     omwetime_buffer_pointer s \<le> length (omwe_buffer_time s)
     \<and> (\<forall>i. Suc i < omwetime_buffer_pointer s \<longrightarrow>
            omwe_buffer_time s ! i + 500 < omwe_buffer_time s ! Suc i)"

text \<open>The release rate the monitor computes in a state.\<close>

definition gradient :: "session_state \<Rightarrow> fp" where
  "gradient s = fp_sub (calculate_normalized_pressure (buffer_queue s)) (current_pressure s)"

section \<open>An example session\<close>

text \<open>
  Calibration on a sensor that reads zero, then seven readings with the button pressed.
  A raw reading of \<open>53261 * m\<close> is a pressure of \<open>100 * m / 21\<close> mmHg.
\<close>

definition idle_sample :: sensor_sample where
  "idle_sample = \<lparr> dataread_push_button = False, spi_pressure_data = 0,
                    read_ms_first = 0, read_ms_second = 0 \<rparr>"

definition reading :: "int \<Rightarrow> int \<Rightarrow> int \<Rightarrow> event" where
  "reading m t1 t2 = Sample \<lparr> dataread_push_button = True, spi_pressure_data = 53261 * m,
                              read_ms_first = t1, read_ms_second = t2 \<rparr>"

definition example_start :: "event list" where
  "example_start = [reading 21 0 0, reading 22 400 400, reading 22 1000 1000, Ticker]"

definition peak_sample :: sensor_sample where
  "peak_sample = \<lparr> dataread_push_button = True, spi_pressure_data = 53261 * 23,
                    read_ms_first = 1100, read_ms_second = 1100 \<rparr>"

definition close_sample :: sensor_sample where
  "close_sample = \<lparr> dataread_push_button = True, spi_pressure_data = 53261 * 22,
                     read_ms_first = 1200, read_ms_second = 1200 \<rparr>"

definition example_rest :: "event list" where
  "example_rest = [reading 23 1600 1600, reading 22 2000 2001]"

definition example_events :: "event list" where
  "example_events = example_start @ Sample peak_sample # Sample close_sample # example_rest"

text \<open>The states the example session goes through.\<close>

definition calibrated_state :: session_state where
  "calibrated_state = initial_state\<lparr> iteration := 100 \<rparr>"

definition example_before :: session_state where
  "example_before =
     calibrated_state
       \<lparr> current_pressure := 2200 / 21, release_rate := Fin (- (100 / 63)),
         buffer_queue := [100, 2200 / 21, 2200 / 21, 0, 0],
         omwegraph_absicissa_buffer := (replicate 1000 0)[0 := 2150 / 21],
         omwegraph_ordinate_buffer := (replicate 1000 0)[0 := 100 / 21],
         omwe_buffer_time := (replicate 1000 0)[0 := 1000],
         pressure_diff := 50 / 21, previous_pressure_diff := 50 / 21,
         peak_pressure_diff := 100 / 21, Mean_Arterial_Pressure := Fin (2150 / 21),
         iteration := 103, omwebuffer_pointer := 1, omwetime_buffer_pointer := 1,
         active_recordflag := True, active_flag := True \<rparr>"

definition example_middle :: session_state where
  "example_middle =
     example_before
       \<lparr> current_pressure := 2300 / 21,
         buffer_queue := [100, 2200 / 21, 2200 / 21, 2300 / 21, 0],
         pressure_diff := 400 / 63, previous_pressure_diff := 400 / 63,
         peak_pressure_diff := 400 / 63, Mean_Arterial_Pressure := Fin (2200 / 21),
         iteration := 104 \<rparr>"

definition example_close :: session_state where
  "example_close =
     example_middle
       \<lparr> current_pressure := 2200 / 21,
         buffer_queue := [100, 2200 / 21, 2200 / 21, 2300 / 21, 2200 / 21],
         omwegraph_absicissa_buffer := (replicate 1000 0)[0 := 2150 / 21, 1 := 2200 / 21],
         omwegraph_ordinate_buffer := (replicate 1000 0)[0 := 100 / 21, 1 := 400 / 63],
         pressure_diff := 0, previous_pressure_diff := 0,
         iteration := 105, omwebuffer_pointer := 2 \<rparr>"

definition example_final :: session_state where
  "example_final =
     example_close
       \<lparr> buffer_queue := [2300 / 21, 2200 / 21, 2200 / 21, 2300 / 21, 2200 / 21],
         omwegraph_absicissa_buffer :=
           (replicate 1000 0)[0 := 2150 / 21, 1 := 2200 / 21, 2 := 320 / 3],
         omwegraph_ordinate_buffer :=
           (replicate 1000 0)[0 := 100 / 21, 1 := 400 / 63, 2 := 100 / 21],
         omwe_buffer_time := (replicate 1000 0)[0 := 1000, 1 := 2001],
         pressure_diff := 40 / 21, previous_pressure_diff := 40 / 21,
         iteration := 107, omwebuffer_pointer := 3, omwetime_buffer_pointer := 2 \<rparr>"

text \<open>A reading of 200 mmHg, and the states before and after it when the queue holds 200.\<close>

definition high_sample :: sensor_sample where
  "high_sample = \<lparr> dataread_push_button = True, spi_pressure_data = 53261 * 42,
                    read_ms_first = 0, read_ms_second = 0 \<rparr>"

definition high_state :: session_state where
  "high_state =
     calibrated_state
       \<lparr> current_pressure := 200, buffer_queue := [200, 0, 0, 0, 0], iteration := 101,
         active_recordflag := True, active_flag := True \<rparr>"

definition high_state_after :: session_state where
  "high_state_after = high_state\<lparr> buffer_queue := [200, 200, 0, 0, 0], iteration := 102 \<rparr>"

section \<open>The sample normalizer\<close>

lemma normalized_pressure_loop_drop:
  "length q = 5 \<Longrightarrow> i \<le> 5 \<Longrightarrow>
   normalized_pressure_loop rnd q i v c =
     (foldl (\<lambda>a x. rnd (a + x)) v (filter (\<lambda>x. x \<noteq> 0) (drop i q)),
      c + real (length (filter (\<lambda>x. x \<noteq> 0) (drop i q))))"
proof (induction rnd q i v c rule: normalized_pressure_loop.induct)
  case (1 rnd q i v c)
  show ?case
  proof (cases "i < 5")
    case True
    then have d: "drop i q = q ! i # drop (Suc i) q"
      using 1(3) by (simp add: Cons_nth_drop_Suc)
    show ?thesis
      using True 1 d by (subst normalized_pressure_loop.simps) simp
  next
    case False
    then show ?thesis using 1(3,4)
      by (subst normalized_pressure_loop.simps) simp
  qed
qed

lemma foldl_plus_sum_list: "foldl (\<lambda>a x. a + x) v xs = v + sum_list xs" for v :: real
  by (induction xs arbitrary: v) (simp_all add: add.assoc)

lemma sum_list_lower: "(\<forall>x \<in> set xs. a \<le> x) \<Longrightarrow> a * real (length xs) \<le> sum_list xs"
  by (induction xs) (auto simp: algebra_simps)

lemma sum_list_upper: "(\<forall>x \<in> set xs. x \<le> a) \<Longrightarrow> sum_list xs \<le> a * real (length xs)"
  by (induction xs) (auto simp: algebra_simps)

lemma mean_between:
  fixes xs :: "real list"
  assumes "xs \<noteq> []"
  shows "Min (set xs) \<le> sum_list xs / real (length xs)"
    and "sum_list xs / real (length xs) \<le> Max (set xs)"
proof -
  have pos: "0 < real (length xs)" using assms by simp
  have "Min (set xs) * real (length xs) \<le> sum_list xs"
    by (rule sum_list_lower) simp
  then show "Min (set xs) \<le> sum_list xs / real (length xs)"
    using pos by (simp add: pos_le_divide_eq)
  have "sum_list xs \<le> Max (set xs) * real (length xs)"
    by (rule sum_list_upper) simp
  then show "sum_list xs / real (length xs) \<le> Max (set xs)"
    using pos by (simp add: pos_divide_le_eq)
qed

lemma calculate_normalized_pressure_rnd_quotient:
  assumes "length q = 5" and "filter (\<lambda>x. x \<noteq> 0) q \<noteq> []"
  shows "calculate_normalized_pressure_rnd rnd q =
           Fin (rnd (foldl (\<lambda>a x. rnd (a + x)) 0 (filter (\<lambda>x. x \<noteq> 0) q)
                      / real (length (filter (\<lambda>x. x \<noteq> 0) q))))"
  using assms by (simp add: calculate_normalized_pressure_rnd_def normalized_pressure_loop_drop)

lemma calculate_normalized_pressure_mean:
  assumes "length q = 5" and "filter (\<lambda>x. x \<noteq> 0) q \<noteq> []"
  shows "calculate_normalized_pressure q =
           Fin (sum_list (filter (\<lambda>x. x \<noteq> 0) q) / real (length (filter (\<lambda>x. x \<noteq> 0) q)))"
  using calculate_normalized_pressure_rnd_quotient[OF assms, of "\<lambda>x. x"]
  by (simp add: calculate_normalized_pressure_def foldl_plus_sum_list)

lemma calculate_normalized_pressure_NaN:
  assumes "length q = 5" and "filter (\<lambda>x. x \<noteq> 0) q = []"
  shows "calculate_normalized_pressure q = NaN"
  using assms
  by (simp add: calculate_normalized_pressure_def calculate_normalized_pressure_rnd_def
        normalized_pressure_loop_drop)

lemmas normalized_eval =
  calculate_normalized_pressure_def calculate_normalized_pressure_rnd_def
  normalized_pressure_loop.simps

subsection \<open>Binary64 rounding\<close>

lemma pow2_powr: "pow2 e = 2 powr (real_of_int e)"
proof (cases "0 \<le> e")
  case True
  then have "real_of_int e = real (nat e)" by simp
  then have "2 powr (real_of_int e) = (2::real) ^ nat e"
    by (simp only: powr_realpow zero_less_numeral)
  then show ?thesis using True by (simp add: pow2_def)
next
  case False
  then have "- real_of_int e = real (nat (- e))" by simp
  then have "2 powr (- real_of_int e) = (2::real) ^ nat (- e)"
    by (simp only: powr_realpow zero_less_numeral)
  moreover have "2 powr (real_of_int e) = 1 / 2 powr (- real_of_int e)"
    by (simp add: powr_minus_divide)
  ultimately have "2 powr (real_of_int e) = 1 / (2::real) ^ nat (- e)"
    by (simp only:)
  then show ?thesis using False by (simp add: pow2_def)
qed

lemma pow2_pos: "0 < pow2 e"
  by (simp add: pow2_powr)

lemma double_round_binade:
  assumes "pow2 e \<le> \<bar>x\<bar>" and "\<bar>x\<bar> < pow2 (e + 1)"
  shows "double_round x = of_int (round_half_even (x / pow2 (e - 52))) * pow2 (e - 52)"
proof -
  have pos: "0 < \<bar>x\<bar>" using assms(1) pow2_pos[of e] by linarith
  have "\<lfloor>log 2 \<bar>x\<bar>\<rfloor> = e"
    using assms pos by (simp add: floor_log_eq_powr_iff pow2_powr)
  then show ?thesis using pos by (simp add: double_round_def Let_def)
qed

text \<open>
  The pressure the program computes for the raw reading 1342180 before calibration,
  \<open>scaler * 1342180\<close> in binary64, and the sums of five such readings.
\<close>

lemma steady_scaler: "double_round (300 / 3355443) = 6597070159872023 / 2 ^ 66"
  by (subst double_round_binade[where e = "-14"])
     (simp_all add: pow2_def round_half_even_def Let_def)

lemma steady_pressure:
  "double_round (6597070159872023 / 2 ^ 66 * 1342180) = 8444266917397529 / 2 ^ 46"
  by (subst double_round_binade[where e = 6])
     (simp_all add: pow2_def round_half_even_def Let_def)

lemma steady_sum1: "double_round (0 + 8444266917397529 / 2 ^ 46) = 8444266917397529 / 2 ^ 46"
  by (subst double_round_binade[where e = 6])
     (simp_all add: pow2_def round_half_even_def Let_def)

lemma steady_sum2:
  "double_round (8444266917397529 / 2 ^ 46 + 8444266917397529 / 2 ^ 46)
     = 8444266917397529 / 2 ^ 45"
  by (subst double_round_binade[where e = 7])
     (simp_all add: pow2_def round_half_even_def Let_def)

lemma steady_sum3:
  "double_round (8444266917397529 / 2 ^ 45 + 8444266917397529 / 2 ^ 46)
     = 6333200188048147 / 2 ^ 44"
  by (subst double_round_binade[where e = 8])
     (simp_all add: pow2_def round_half_even_def Let_def)

lemma steady_sum4:
  "double_round (6333200188048147 / 2 ^ 44 + 8444266917397529 / 2 ^ 46)
     = 8444266917397529 / 2 ^ 44"
  by (subst double_round_binade[where e = 8])
     (simp_all add: pow2_def round_half_even_def Let_def)

lemma steady_sum5:
  "double_round (8444266917397529 / 2 ^ 44 + 8444266917397529 / 2 ^ 46)
     = 329854176460841 / 2 ^ 39"
  by (subst double_round_binade[where e = 9])
     (simp_all add: pow2_def round_half_even_def Let_def)

lemma steady_quotient:
  "double_round (329854176460841 / 2 ^ 39 / 5) = 8444266917397530 / 2 ^ 46"
  by (subst double_round_binade[where e = 6])
     (simp_all add: pow2_def round_half_even_def Let_def)

lemma steady_normalized:
  "calculate_normalized_pressure_rnd double_round (replicate 5 (8444266917397529 / 2 ^ 46))
     = Fin (8444266917397530 / 2 ^ 46)"
proof -
  let ?x = "8444266917397529 / 2 ^ 46 :: real"
  have n: "?x \<noteq> 0" by simp
  have q: "replicate 5 ?x = [?x, ?x, ?x, ?x, ?x]" by (simp add: numeral_eq_Suc)
  have "calculate_normalized_pressure_rnd double_round (replicate 5 ?x) =
          Fin (double_round (foldl (\<lambda>a x. double_round (a + x)) 0 (filter (\<lambda>x. x \<noteq> 0) (replicate 5 ?x))
                  / real (length (filter (\<lambda>x. x \<noteq> 0) (replicate 5 ?x)))))"
    by (rule calculate_normalized_pressure_rnd_quotient) (simp_all add: n)
  also have "filter (\<lambda>x. x \<noteq> 0) (replicate 5 ?x) = [?x, ?x, ?x, ?x, ?x]"
    unfolding q using n by simp
  also have "foldl (\<lambda>a x. double_round (a + x)) 0 [?x, ?x, ?x, ?x, ?x] = 329854176460841 / 2 ^ 39"
    by (simp only: foldl.simps steady_sum1 steady_sum2 steady_sum3 steady_sum4 steady_sum5)
  finally show ?thesis
    using steady_quotient by simp
qed

text \<open>
  Claim C5, amended. On a queue of five slots of which at least one is not zero,
  \<open>calculate_normalized_pressure\<close> returns the sum of exactly the non-zero slots, taken
  in slot order, divided by their number, whatever the rounding. In exact arithmetic that
  is their arithmetic mean, and it lies between the least and the greatest non-zero slot.
  As stated, for the doubles the program computes with, the claim fails: five slots all
  holding the pressure of the raw reading 1342180 give a normalized pressure one unit in
  the last place above them.
\<close>

theorem normalized_pressure_is_bounded_mean:
  assumes "length q = 5" and "filter (\<lambda>x. x \<noteq> 0) q \<noteq> []"
  shows "calculate_normalized_pressure_rnd rnd q =
           Fin (rnd (foldl (\<lambda>a x. rnd (a + x)) 0 (filter (\<lambda>x. x \<noteq> 0) q)
                      / real (length (filter (\<lambda>x. x \<noteq> 0) q))))
       \<and> calculate_normalized_pressure q =
           Fin (sum_list (filter (\<lambda>x. x \<noteq> 0) q) / real (length (filter (\<lambda>x. x \<noteq> 0) q)))
       \<and> Min (set (filter (\<lambda>x. x \<noteq> 0) q))
           \<le> sum_list (filter (\<lambda>x. x \<noteq> 0) q) / real (length (filter (\<lambda>x. x \<noteq> 0) q))
       \<and> sum_list (filter (\<lambda>x. x \<noteq> 0) q) / real (length (filter (\<lambda>x. x \<noteq> 0) q))
           \<le> Max (set (filter (\<lambda>x. x \<noteq> 0) q))"
  using calculate_normalized_pressure_rnd_quotient[OF assms]
    calculate_normalized_pressure_mean[OF assms] mean_between[OF assms(2)] by simp

theorem normalized_pressure_is_bounded_mean_witness:
  "length [100, 0, 104, 0, 0 :: real] = 5
   \<and> filter (\<lambda>x. x \<noteq> 0) [100, 0, 104, 0, 0 :: real] \<noteq> []
   \<and> calculate_normalized_pressure [100, 0, 104, 0, 0] = Fin 102
   \<and> Min (set [100, 104 :: real]) \<le> 102 \<and> 102 \<le> Max (set [100, 104 :: real])"
  using normalized_pressure_is_bounded_mean [of "[100, 0, 104, 0, 0]"] by simp

theorem normalized_pressure_rounded_counterexample:
  "double_round (double_round (300 / 3355443) * 1342180) = 8444266917397529 / 2 ^ 46
   \<and> calculate_normalized_pressure_rnd double_round (replicate 5 (8444266917397529 / 2 ^ 46))
       = Fin (8444266917397530 / 2 ^ 46)
   \<and> Max (set (filter (\<lambda>x. x \<noteq> 0) (replicate 5 (8444266917397529 / 2 ^ 46 :: real))))
       < 8444266917397530 / 2 ^ 46"
proof (intro conjI)
  show "double_round (double_round (300 / 3355443) * 1342180) = 8444266917397529 / 2 ^ 46"
    by (simp only: steady_scaler steady_pressure)
  show "calculate_normalized_pressure_rnd double_round (replicate 5 (8444266917397529 / 2 ^ 46))
       = Fin (8444266917397530 / 2 ^ 46)"
    by (rule steady_normalized)
  have "filter (\<lambda>x. x \<noteq> 0) (replicate 5 (8444266917397529 / 2 ^ 46 :: real))
        = replicate 5 (8444266917397529 / 2 ^ 46)"
    by simp
  then have "Max (set (filter (\<lambda>x. x \<noteq> 0) (replicate 5 (8444266917397529 / 2 ^ 46 :: real))))
        = 8444266917397529 / 2 ^ 46"
    by (simp only: set_replicate_conv_if) simp
  then show "Max (set (filter (\<lambda>x. x \<noteq> 0) (replicate 5 (8444266917397529 / 2 ^ 46 :: real))))
       < 8444266917397530 / 2 ^ 46"
    by simp
qed

section \<open>The systolic and diastolic estimator\<close>

lemma band_residuals_0 [simp]: "band_residuals a o' 0 lo hi t = []"
  by (simp add: band_residuals_def)

lemma band_residuals_Suc:
  "n < length a \<Longrightarrow> n < length o' \<Longrightarrow>
   band_residuals a o' (Suc n) lo hi t =
     band_residuals a o' n lo hi t @ (if lo < a ! n \<and> a ! n < hi then [\<bar>o' ! n - t\<bar>] else [])"
  by (simp add: band_residuals_def take_Suc_conv_app_nth)

lemma set_band_residuals:
  "n \<le> length a \<Longrightarrow> n \<le> length o' \<Longrightarrow>
   set (band_residuals a o' n lo hi t) = (\<lambda>i. \<bar>o' ! i - t\<bar>) ` {i. i < n \<and> lo < a ! i \<and> a ! i < hi}"
proof (induction n)
  case 0
  then show ?case by simp
next
  case (Suc n)
  have split: "{i. i < Suc n \<and> lo < a ! i \<and> a ! i < hi} =
        {i. i < n \<and> lo < a ! i \<and> a ! i < hi} \<union> (if lo < a ! n \<and> a ! n < hi then {n} else {})"
    by (auto simp: less_Suc_eq)
  have "set (band_residuals a o' (Suc n) lo hi t) =
        set (band_residuals a o' n lo hi t) \<union> (\<lambda>i. \<bar>o' ! i - t\<bar>) ` (if lo < a ! n \<and> a ! n < hi then {n} else {})"
    using Suc.prems by (auto simp: band_residuals_Suc)
  then show ?case using Suc by (simp only: split image_Un)
qed

lemma bp_search_loop_foldl:
  "bp_search_loop a o' sv dv n i b = foldl (\<lambda>b i. bp_search_step a o' sv dv i b) b [i..<n]"
proof (induction a o' sv dv n i b rule: bp_search_loop.induct)
  case (1 a o' sv dv n i b)
  show ?case
  proof (cases "i < n")
    case True
    then show ?thesis using 1
      by (subst bp_search_loop.simps) (simp add: upt_conv_Cons)
  next
    case False
    then show ?thesis by (subst bp_search_loop.simps) simp
  qed
qed

lemma bp_scan_0 [simp]: "bp_scan a o' sv dv 0 b = b"
  by (simp add: bp_scan_def)

lemma bp_scan_Suc: "bp_scan a o' sv dv (Suc n) b = bp_search_step a o' sv dv n (bp_scan a o' sv dv n b)"
  by (simp add: bp_scan_def)

lemma Min_snoc: "Min (set (x # xs @ [y])) = min (y::real) (Min (set (x # xs)))"
proof -
  have "set (x # xs @ [y]) = insert y (set (x # xs))" by auto
  moreover have "Min (insert y (set (x # xs))) = min y (Min (set (x # xs)))"
    by (rule Min_insert) simp_all
  ultimately show ?thesis by simp
qed

lemma Min_Cons_le: "Min (set (x # xs)) \<le> (x::real)"
  by simp

lemma Min_Cons_eq: "(\<forall>r \<in> set xs. x \<le> r) \<Longrightarrow> Min (set (x # xs)) = (x::real)"
  by (simp add: Min_insert2)

lemma systolic_scan:
  assumes "n \<le> length a" "n \<le> length o'"
  shows "min_systolic_ordinate_error (bp_scan a o' sv dv n b) =
           Min (set (min_systolic_ordinate_error b # band_residuals a o' n 100 200 sv))
         \<and> (systolic_buffer (bp_scan a o' sv dv n b) < 0 \<longleftrightarrow>
              systolic_buffer b < 0
              \<and> (\<forall>r \<in> set (band_residuals a o' n 100 200 sv). min_systolic_ordinate_error b \<le> r))"
  using assms
proof (induction n)
  case 0
  then show ?case by simp
next
  case (Suc n)
  let ?b = "bp_scan a o' sv dv n b"
  let ?R = "band_residuals a o' n 100 200 sv"
  have IH1: "min_systolic_ordinate_error ?b = Min (set (min_systolic_ordinate_error b # ?R))"
    and IH2: "systolic_buffer ?b < 0 \<longleftrightarrow>
              systolic_buffer b < 0 \<and> (\<forall>r \<in> set ?R. min_systolic_ordinate_error b \<le> r)"
    using Suc by simp_all
  have le: "min_systolic_ordinate_error ?b \<le> min_systolic_ordinate_error b"
    unfolding IH1 by (rule Min_Cons_le)
  have R: "band_residuals a o' (Suc n) 100 200 sv =
           ?R @ (if 100 < a ! n \<and> a ! n < 200 then [\<bar>o' ! n - sv\<bar>] else [])"
    using Suc.prems by (simp add: band_residuals_Suc)
  show ?case
  proof (cases "100 < a ! n \<and> a ! n < 200")
    case False
    then show ?thesis using IH1 IH2 R
      by (auto simp: bp_scan_Suc bp_search_step_def Let_def)
  next
    case True
    have R': "band_residuals a o' (Suc n) 100 200 sv = ?R @ [\<bar>o' ! n - sv\<bar>]"
      using R True by simp
    show ?thesis
    proof (cases "\<bar>o' ! n - sv\<bar> < min_systolic_ordinate_error ?b")
      case upd: True
      have e: "min_systolic_ordinate_error (bp_scan a o' sv dv (Suc n) b) = \<bar>o' ! n - sv\<bar>"
        and s: "systolic_buffer (bp_scan a o' sv dv (Suc n) b) = int n"
        using True upd by (simp_all add: bp_scan_Suc bp_search_step_def Let_def)
      have "Min (set (min_systolic_ordinate_error b # band_residuals a o' (Suc n) 100 200 sv))
            = min \<bar>o' ! n - sv\<bar> (Min (set (min_systolic_ordinate_error b # ?R)))"
        by (simp only: R' Min_snoc)
      also have "\<dots> = min \<bar>o' ! n - sv\<bar> (min_systolic_ordinate_error ?b)"
        by (simp only: IH1)
      also have "\<dots> = \<bar>o' ! n - sv\<bar>" using upd by simp
      finally have m: "Min (set (min_systolic_ordinate_error b # band_residuals a o' (Suc n) 100 200 sv))
            = \<bar>o' ! n - sv\<bar>" .
      have "\<not> min_systolic_ordinate_error b \<le> \<bar>o' ! n - sv\<bar>" using upd le by simp
      then have "\<not> (\<forall>r \<in> set (band_residuals a o' (Suc n) 100 200 sv). min_systolic_ordinate_error b \<le> r)"
        using True R by auto
      then show ?thesis using e s m by simp
    next
      case noupd: False
      have e: "min_systolic_ordinate_error (bp_scan a o' sv dv (Suc n) b) = min_systolic_ordinate_error ?b"
        and s: "systolic_buffer (bp_scan a o' sv dv (Suc n) b) = systolic_buffer ?b"
        using True noupd by (simp_all add: bp_scan_Suc bp_search_step_def Let_def)
      have "Min (set (min_systolic_ordinate_error b # band_residuals a o' (Suc n) 100 200 sv))
            = min \<bar>o' ! n - sv\<bar> (Min (set (min_systolic_ordinate_error b # ?R)))"
        by (simp only: R' Min_snoc)
      also have "\<dots> = min \<bar>o' ! n - sv\<bar> (min_systolic_ordinate_error ?b)"
        by (simp only: IH1)
      also have "\<dots> = min_systolic_ordinate_error ?b" using noupd by simp
      finally have m: "Min (set (min_systolic_ordinate_error b # band_residuals a o' (Suc n) 100 200 sv))
            = min_systolic_ordinate_error ?b" .
      have "systolic_buffer ?b < 0 \<Longrightarrow> min_systolic_ordinate_error b \<le> \<bar>o' ! n - sv\<bar>"
      proof -
        assume "systolic_buffer ?b < 0"
        then have "\<forall>r \<in> set ?R. min_systolic_ordinate_error b \<le> r" using IH2 by simp
        then have "min_systolic_ordinate_error ?b = min_systolic_ordinate_error b"
          unfolding IH1 by (rule Min_Cons_eq)
        then show ?thesis using noupd by simp
      qed
      then show ?thesis using e s m IH2 True R by auto
    qed
  qed
qed

lemma diastolic_scan:
  assumes "n \<le> length a" "n \<le> length o'"
  shows "min_diastolic_ordinate_error (bp_scan a o' sv dv n b) =
           Min (set (min_diastolic_ordinate_error b # band_residuals a o' n 50 90 dv))
         \<and> (diastolic_buffer (bp_scan a o' sv dv n b) < 0 \<longleftrightarrow>
              diastolic_buffer b < 0
              \<and> (\<forall>r \<in> set (band_residuals a o' n 50 90 dv). min_diastolic_ordinate_error b \<le> r))"
  using assms
proof (induction n)
  case 0
  then show ?case by simp
next
  case (Suc n)
  let ?b = "bp_scan a o' sv dv n b"
  let ?R = "band_residuals a o' n 50 90 dv"
  have IH1: "min_diastolic_ordinate_error ?b = Min (set (min_diastolic_ordinate_error b # ?R))"
    and IH2: "diastolic_buffer ?b < 0 \<longleftrightarrow>
              diastolic_buffer b < 0 \<and> (\<forall>r \<in> set ?R. min_diastolic_ordinate_error b \<le> r)"
    using Suc by simp_all
  have le: "min_diastolic_ordinate_error ?b \<le> min_diastolic_ordinate_error b"
    unfolding IH1 by (rule Min_Cons_le)
  have R: "band_residuals a o' (Suc n) 50 90 dv =
           ?R @ (if 50 < a ! n \<and> a ! n < 90 then [\<bar>o' ! n - dv\<bar>] else [])"
    using Suc.prems by (simp add: band_residuals_Suc)
  show ?case
  proof (cases "50 < a ! n \<and> a ! n < 90")
    case False
    then show ?thesis using IH1 IH2 R
      by (auto simp: bp_scan_Suc bp_search_step_def Let_def)
  next
    case True
    have R': "band_residuals a o' (Suc n) 50 90 dv = ?R @ [\<bar>o' ! n - dv\<bar>]"
      using R True by simp
    show ?thesis
    proof (cases "\<bar>o' ! n - dv\<bar> < min_diastolic_ordinate_error ?b")
      case upd: True
      have e: "min_diastolic_ordinate_error (bp_scan a o' sv dv (Suc n) b) = \<bar>o' ! n - dv\<bar>"
        and s: "diastolic_buffer (bp_scan a o' sv dv (Suc n) b) = int n"
        using True upd by (simp_all add: bp_scan_Suc bp_search_step_def Let_def)
      have "Min (set (min_diastolic_ordinate_error b # band_residuals a o' (Suc n) 50 90 dv))
            = min \<bar>o' ! n - dv\<bar> (Min (set (min_diastolic_ordinate_error b # ?R)))"
        by (simp only: R' Min_snoc)
      also have "\<dots> = min \<bar>o' ! n - dv\<bar> (min_diastolic_ordinate_error ?b)"
        by (simp only: IH1)
      also have "\<dots> = \<bar>o' ! n - dv\<bar>" using upd by simp
      finally have m: "Min (set (min_diastolic_ordinate_error b # band_residuals a o' (Suc n) 50 90 dv))
            = \<bar>o' ! n - dv\<bar>" .
      have "\<not> min_diastolic_ordinate_error b \<le> \<bar>o' ! n - dv\<bar>" using upd le by simp
      then have "\<not> (\<forall>r \<in> set (band_residuals a o' (Suc n) 50 90 dv). min_diastolic_ordinate_error b \<le> r)"
        using True R by auto
      then show ?thesis using e s m by simp
    next
      case noupd: False
      have e: "min_diastolic_ordinate_error (bp_scan a o' sv dv (Suc n) b) = min_diastolic_ordinate_error ?b"
        and s: "diastolic_buffer (bp_scan a o' sv dv (Suc n) b) = diastolic_buffer ?b"
        using True noupd by (simp_all add: bp_scan_Suc bp_search_step_def Let_def)
      have "Min (set (min_diastolic_ordinate_error b # band_residuals a o' (Suc n) 50 90 dv))
            = min \<bar>o' ! n - dv\<bar> (Min (set (min_diastolic_ordinate_error b # ?R)))"
        by (simp only: R' Min_snoc)
      also have "\<dots> = min \<bar>o' ! n - dv\<bar> (min_diastolic_ordinate_error ?b)"
        by (simp only: IH1)
      also have "\<dots> = min_diastolic_ordinate_error ?b" using noupd by simp
      finally have m: "Min (set (min_diastolic_ordinate_error b # band_residuals a o' (Suc n) 50 90 dv))
            = min_diastolic_ordinate_error ?b" .
      have "diastolic_buffer ?b < 0 \<Longrightarrow> min_diastolic_ordinate_error b \<le> \<bar>o' ! n - dv\<bar>"
      proof -
        assume "diastolic_buffer ?b < 0"
        then have "\<forall>r \<in> set ?R. min_diastolic_ordinate_error b \<le> r" using IH2 by simp
        then have "min_diastolic_ordinate_error ?b = min_diastolic_ordinate_error b"
          unfolding IH1 by (rule Min_Cons_eq)
        then show ?thesis using noupd by simp
      qed
      then show ?thesis using e s m IH2 True R by auto
    qed
  qed
qed


lemma targets:
  "(SYSTOLIC_LOWER_CHAR_RATIO * p + SYSTOLIC_UPPER_CHAR_RATIO * p) / 2 = 59 / 100 * p"
  "(DIASTOLIC_LOWER_CHAR_RATIO * p + DIASTOLIC_UPPER_CHAR_RATIO * p) / 2 = 76 / 100 * p"
  by (simp_all add: SYSTOLIC_LOWER_CHAR_RATIO_def SYSTOLIC_UPPER_CHAR_RATIO_def
        DIASTOLIC_LOWER_CHAR_RATIO_def DIASTOLIC_UPPER_CHAR_RATIO_def)

lemma calculator_scan:
  "Systolic_and_diastolic_bp_calculator a o' n p =
     (let b = bp_scan a o' (59 / 100 * p) (76 / 100 * p) n
                \<lparr> systolic_buffer = - 1, diastolic_buffer = - 1,
                  min_systolic_ordinate_error = 3 / 2,
                  min_diastolic_ordinate_error = 3 / 2 \<rparr>
      in if systolic_buffer b < 0 \<or> diastolic_buffer b < 0
         then \<lparr> systolic_bloodpressure = - 1, diastolic_bloodpressure = - 1,
                systolic_char_ratio = min_systolic_ordinate_error b,
                diastolic_char_ratio = min_diastolic_ordinate_error b \<rparr>
         else \<lparr> systolic_bloodpressure = a ! nat (systolic_buffer b),
                diastolic_bloodpressure = a ! nat (diastolic_buffer b),
                systolic_char_ratio = min_systolic_ordinate_error b,
                diastolic_char_ratio = min_diastolic_ordinate_error b \<rparr>)"
  by (simp add: Systolic_and_diastolic_bp_calculator_def targets bp_search_loop_foldl bp_scan_def
        MAP_ERROR_THRESH_def Let_def)

lemma calculator_residuals:
  assumes "n \<le> length a" "n \<le> length o'"
  shows "systolic_char_ratio (Systolic_and_diastolic_bp_calculator a o' n p)
           = Min (set (3 / 2 # band_residuals a o' n 100 200 (59 / 100 * p)))"
    and "diastolic_char_ratio (Systolic_and_diastolic_bp_calculator a o' n p)
           = Min (set (3 / 2 # band_residuals a o' n 50 90 (76 / 100 * p)))"
  using systolic_scan[OF assms, of "59 / 100 * p" "76 / 100 * p"]
        diastolic_scan[OF assms, of "59 / 100 * p" "76 / 100 * p"]
  by (simp_all add: calculator_scan Let_def)

lemma calculator_sentinel:
  assumes "n \<le> length a" "n \<le> length o'"
    and "(\<forall>r \<in> set (band_residuals a o' n 100 200 (59 / 100 * p)). 3 / 2 \<le> r)
         \<or> (\<forall>r \<in> set (band_residuals a o' n 50 90 (76 / 100 * p)). 3 / 2 \<le> r)"
  shows "systolic_bloodpressure (Systolic_and_diastolic_bp_calculator a o' n p) = - 1"
    and "diastolic_bloodpressure (Systolic_and_diastolic_bp_calculator a o' n p) = - 1"
  using systolic_scan[OF assms(1,2), of "59 / 100 * p" "76 / 100 * p"]
        diastolic_scan[OF assms(1,2), of "59 / 100 * p" "76 / 100 * p"] assms(3)
  by (auto simp: calculator_scan Let_def)

text \<open>
  Claim C2. When no recorded envelope point has its abscissa strictly between 100 and 200,
  or none has it strictly between 50 and 90 (so in particular when nothing was recorded),
  both pressures of the result are the negative sentinel \<open>-1\<close>, also when only one of
  the two searches failed.
\<close>
theorem no_band_entry_gives_sentinels:
  assumes "pointer \<le> length absicissa" and "pointer \<le> length ordinate"
    and "(\<forall>i < pointer. \<not> (100 < absicissa ! i \<and> absicissa ! i < 200))
         \<or> (\<forall>i < pointer. \<not> (50 < absicissa ! i \<and> absicissa ! i < 90))"
  shows "systolic_bloodpressure
           (Systolic_and_diastolic_bp_calculator absicissa ordinate pointer peak) = - 1
       \<and> diastolic_bloodpressure
           (Systolic_and_diastolic_bp_calculator absicissa ordinate pointer peak) = - 1"
proof -
  have "(\<forall>r \<in> set (band_residuals absicissa ordinate pointer 100 200 (59 / 100 * peak)). 3 / 2 \<le> r)
         \<or> (\<forall>r \<in> set (band_residuals absicissa ordinate pointer 50 90 (76 / 100 * peak)). 3 / 2 \<le> r)"
    using assms(3) by (auto simp: set_band_residuals[OF assms(1,2)])
  from calculator_sentinel[OF assms(1,2) this] show ?thesis by simp
qed

theorem no_band_entry_gives_sentinels_witness:
  "(1::nat) \<le> length [150 :: real] \<and> (1::nat) \<le> length [2 :: real]
   \<and> \<not> (50 < [150 :: real] ! 0 \<and> [150 :: real] ! 0 < 90)
   \<and> systolic_bloodpressure (Systolic_and_diastolic_bp_calculator [150] [2] 1 1) = - 1
   \<and> diastolic_bloodpressure (Systolic_and_diastolic_bp_calculator [150] [2] 1 1) = - 1"
  using no_band_entry_gives_sentinels [of 1 "[150]" "[2]" 1] by simp

text \<open>
  Claim C9. An in-band entry is a candidate only if its residual is strictly below
  \<open>MAP_ERROR_THRESH + 1 = 1.5\<close>: when every entry inside the systolic band (or every
  entry inside the diastolic band) has a residual of at least 1.5, both pressures are the
  sentinel \<open>-1\<close> and the residual reported for that target is the initial value 1.5.
\<close>
theorem residual_threshold:
  assumes "pointer \<le> length absicissa" and "pointer \<le> length ordinate"
  shows "((\<forall>i < pointer. 100 < absicissa ! i \<and> absicissa ! i < 200
             \<longrightarrow> 3 / 2 \<le> \<bar>ordinate ! i - 59 / 100 * peak\<bar>) \<longrightarrow>
          systolic_bloodpressure
            (Systolic_and_diastolic_bp_calculator absicissa ordinate pointer peak) = - 1
          \<and> diastolic_bloodpressure
            (Systolic_and_diastolic_bp_calculator absicissa ordinate pointer peak) = - 1
          \<and> systolic_char_ratio
            (Systolic_and_diastolic_bp_calculator absicissa ordinate pointer peak)
              = MAP_ERROR_THRESH + 1)
       \<and> ((\<forall>i < pointer. 50 < absicissa ! i \<and> absicissa ! i < 90
             \<longrightarrow> 3 / 2 \<le> \<bar>ordinate ! i - 76 / 100 * peak\<bar>) \<longrightarrow>
          systolic_bloodpressure
            (Systolic_and_diastolic_bp_calculator absicissa ordinate pointer peak) = - 1
          \<and> diastolic_bloodpressure
            (Systolic_and_diastolic_bp_calculator absicissa ordinate pointer peak) = - 1
          \<and> diastolic_char_ratio
            (Systolic_and_diastolic_bp_calculator absicissa ordinate pointer peak)
              = MAP_ERROR_THRESH + 1)"
proof (intro conjI impI)
  assume h: "\<forall>i < pointer. 100 < absicissa ! i \<and> absicissa ! i < 200
             \<longrightarrow> 3 / 2 \<le> \<bar>ordinate ! i - 59 / 100 * peak\<bar>"
  then have r: "\<forall>r \<in> set (band_residuals absicissa ordinate pointer 100 200 (59 / 100 * peak)). 3 / 2 \<le> r"
    by (auto simp: set_band_residuals[OF assms])
  then have r': "(\<forall>r \<in> set (band_residuals absicissa ordinate pointer 100 200 (59 / 100 * peak)). 3 / 2 \<le> r)
         \<or> (\<forall>r \<in> set (band_residuals absicissa ordinate pointer 50 90 (76 / 100 * peak)). 3 / 2 \<le> r)"
    by blast
  show "systolic_bloodpressure
            (Systolic_and_diastolic_bp_calculator absicissa ordinate pointer peak) = - 1"
    "diastolic_bloodpressure
            (Systolic_and_diastolic_bp_calculator absicissa ordinate pointer peak) = - 1"
    using calculator_sentinel[OF assms r'] by simp_all
  show "systolic_char_ratio
            (Systolic_and_diastolic_bp_calculator absicissa ordinate pointer peak)
              = MAP_ERROR_THRESH + 1"
    using Min_Cons_eq[OF r] by (simp add: calculator_residuals(1)[OF assms] MAP_ERROR_THRESH_def)
next
  assume h: "\<forall>i < pointer. 50 < absicissa ! i \<and> absicissa ! i < 90
             \<longrightarrow> 3 / 2 \<le> \<bar>ordinate ! i - 76 / 100 * peak\<bar>"
  then have r: "\<forall>r \<in> set (band_residuals absicissa ordinate pointer 50 90 (76 / 100 * peak)). 3 / 2 \<le> r"
    by (auto simp: set_band_residuals[OF assms])
  then have r': "(\<forall>r \<in> set (band_residuals absicissa ordinate pointer 100 200 (59 / 100 * peak)). 3 / 2 \<le> r)
         \<or> (\<forall>r \<in> set (band_residuals absicissa ordinate pointer 50 90 (76 / 100 * peak)). 3 / 2 \<le> r)"
    by blast
  show "systolic_bloodpressure
            (Systolic_and_diastolic_bp_calculator absicissa ordinate pointer peak) = - 1"
    "diastolic_bloodpressure
            (Systolic_and_diastolic_bp_calculator absicissa ordinate pointer peak) = - 1"
    using calculator_sentinel[OF assms r'] by simp_all
  show "diastolic_char_ratio
            (Systolic_and_diastolic_bp_calculator absicissa ordinate pointer peak)
              = MAP_ERROR_THRESH + 1"
    using Min_Cons_eq[OF r] by (simp add: calculator_residuals(2)[OF assms] MAP_ERROR_THRESH_def)
qed

theorem residual_threshold_witness:
  "(2::nat) \<le> length [150, 80 :: real] \<and> (2::nat) \<le> length [10, 10 :: real]
   \<and> 100 < [150, 80 :: real] ! 0 \<and> [150, 80 :: real] ! 0 < 200
   \<and> 3 / 2 \<le> \<bar>[10, 10 :: real] ! 0 - 59 / 100 * 1\<bar>
   \<and> 50 < [150, 80 :: real] ! 1 \<and> [150, 80 :: real] ! 1 < 90
   \<and> 3 / 2 \<le> \<bar>[10, 10 :: real] ! 1 - 76 / 100 * 1\<bar>
   \<and> systolic_bloodpressure (Systolic_and_diastolic_bp_calculator [150, 80] [10, 10] 2 1) = - 1
   \<and> diastolic_bloodpressure (Systolic_and_diastolic_bp_calculator [150, 80] [10, 10] 2 1) = - 1
   \<and> systolic_char_ratio (Systolic_and_diastolic_bp_calculator [150, 80] [10, 10] 2 1) = 3 / 2
   \<and> diastolic_char_ratio (Systolic_and_diastolic_bp_calculator [150, 80] [10, 10] 2 1) = 3 / 2"
proof -
  have b: "\<And>P. (\<forall>i < (2::nat). P i) \<longleftrightarrow> P 0 \<and> P 1"
    by (auto simp: less_Suc_eq numeral_2_eq_2)
  show ?thesis
    using residual_threshold [of 2 "[150, 80]" "[10, 10]" 1]
    by (simp add: b MAP_ERROR_THRESH_def)
qed

text \<open>
  Claim C3, amended. Each residual field is the least of \<open>MAP_ERROR_THRESH + 1 = 1.5\<close>
  and the residuals \<open>|ordinate - target|\<close> of the in-band entries, for the targets
  \<open>0.59 * peak\<close> and \<open>0.76 * peak\<close>, whether or not the estimate succeeded. As
  stated, without the cap at 1.5, the claim fails on an envelope whose only systolic-band
  entry has the residual 9.41.
\<close>
theorem residual_is_closest_or_threshold:
  assumes "pointer \<le> length absicissa" and "pointer \<le> length ordinate"
  shows "systolic_char_ratio
           (Systolic_and_diastolic_bp_calculator absicissa ordinate pointer peak)
           = Min (set ((MAP_ERROR_THRESH + 1)
                       # band_residuals absicissa ordinate pointer 100 200 (59 / 100 * peak)))
       \<and> diastolic_char_ratio
           (Systolic_and_diastolic_bp_calculator absicissa ordinate pointer peak)
           = Min (set ((MAP_ERROR_THRESH + 1)
                       # band_residuals absicissa ordinate pointer 50 90 (76 / 100 * peak)))"
  using calculator_residuals[OF assms, of peak] by (simp add: MAP_ERROR_THRESH_def)

theorem residual_is_closest_or_threshold_witness:
  "(2::nat) \<le> length [150, 80 :: real] \<and> (2::nat) \<le> length [1, 1 :: real]
   \<and> systolic_char_ratio (Systolic_and_diastolic_bp_calculator [150, 80] [1, 1] 2 1) = 41 / 100
   \<and> diastolic_char_ratio (Systolic_and_diastolic_bp_calculator [150, 80] [1, 1] 2 1) = 24 / 100"
  using residual_is_closest_or_threshold [of 2 "[150, 80]" "[1, 1]" 1]
  by (simp add: band_residuals_def MAP_ERROR_THRESH_def)

theorem residual_is_closest_counterexample:
  "systolic_char_ratio (Systolic_and_diastolic_bp_calculator [150, 80] [10, 10] 2 1)
     \<noteq> closest_residual [150, 80] [10, 10] 2 100 200 (59 / 100 * 1)"
  using calculator_residuals(1) [of 2 "[150, 80]" "[10, 10]" 1]
  by (simp add: closest_residual_def band_residuals_def)

section \<open>The pulse estimator\<close>

lemma pulse_bounds:
  "(60 / UPPER_PULSE_RANGE) * 1000 = 400" "(60 / LOWER_PULSE_RANGE) * 1000 = 60000 / 35"
  by (simp_all add: UPPER_PULSE_RANGE_def LOWER_PULSE_RANGE_def)




text \<open>
  In binary64 the lower threshold \<open>(60.0 / 150.0) * 1000.0\<close> is 400 and the upper one,
  \<open>(60.0 / 35.0) * 1000.0\<close>, lies a little below \<open>60000 / 35\<close>. An interval between
  recorded peak times is a whole number of milliseconds above 500: for it the strict tests
  of the code, with the exact or with the rounded upper threshold, and the closed range
  \<open>[60000/150, 60000/35]\<close> decide alike.
\<close>

lemma pulse_thresholds_binary64:
  "double_round (double_round (60 / 150) * 1000) = 400"
  "double_round (double_round (60 / 35) * 1000) = 3769754152374857 / 2 ^ 41"
proof -
  have a: "double_round (60 / 150) = 3602879701896397 / 2 ^ 53"
    by (subst double_round_binade[where e = "-2"])
       (simp_all add: pow2_def round_half_even_def Let_def)
  have b: "double_round (3602879701896397 / 2 ^ 53 * 1000) = 400"
    by (subst double_round_binade[where e = 8])
       (simp_all add: pow2_def round_half_even_def Let_def)
  show "double_round (double_round (60 / 150) * 1000) = 400"
    by (simp only: a b)
  have c: "double_round (60 / 35) = 7720456504063707 / 2 ^ 52"
    by (subst double_round_binade[where e = 0])
       (simp_all add: pow2_def round_half_even_def Let_def)
  have d: "double_round (7720456504063707 / 2 ^ 52 * 1000) = 3769754152374857 / 2 ^ 41"
    by (subst double_round_binade[where e = 10])
       (simp_all add: pow2_def round_half_even_def Let_def)
  show "double_round (double_round (60 / 35) * 1000) = 3769754152374857 / 2 ^ 41"
    by (simp only: c d)
qed





section \<open>One call of \<open>measure_pressure\<close>\<close>

lemma record_peak_time_effect:
  assumes "record_peak_time inp s = Some s'"
  shows "(s' = s \<and> 0 < omwetime_buffer_pointer s
           \<and> \<not> real_of_int (read_ms_first inp)
                  - omwe_buffer_time s ! (omwetime_buffer_pointer s - 1) > 500)
       \<or> (\<exists>t. omwetime_buffer_pointer s < length (omwe_buffer_time s)
             \<and> s' = s\<lparr> omwe_buffer_time := (omwe_buffer_time s)[omwetime_buffer_pointer s := t],
                       omwetime_buffer_pointer := Suc (omwetime_buffer_pointer s) \<rparr>
             \<and> (omwetime_buffer_pointer s = 0 \<and> t = real_of_int (read_ms_first inp)
                \<or> 0 < omwetime_buffer_pointer s
                  \<and> real_of_int (read_ms_first inp)
                      - omwe_buffer_time s ! (omwetime_buffer_pointer s - 1) > 500
                  \<and> t = real_of_int (read_ms_second inp)))"
  using assms
  by (auto simp: record_peak_time_def array_load_def array_store_def
           split: if_splits bind_splits)

lemma record_envelope_point_effect:
  assumes "record_envelope_point x s = Some s'"
  shows "omwebuffer_pointer s < length (omwegraph_ordinate_buffer s)
       \<and> omwebuffer_pointer s < length (omwegraph_absicissa_buffer s)
       \<and> s' = s\<lparr> omwegraph_ordinate_buffer :=
                    (omwegraph_ordinate_buffer s)[omwebuffer_pointer s := previous_pressure_diff s],
                 omwegraph_absicissa_buffer :=
                    (omwegraph_absicissa_buffer s)[omwebuffer_pointer s := x],
                 omwebuffer_pointer := Suc (omwebuffer_pointer s) \<rparr>"
  using assms
  by (auto simp: record_envelope_point_def array_store_def split: if_splits bind_splits)

lemma record_oscillation_NaN: "record_oscillation inp NaN s = Some s"
  by (simp add: record_oscillation_def)

lemma record_oscillation_Fin:
  "record_oscillation inp (Fin x) s =
     (if active_recordflag s \<and> \<bar>current_pressure s - x\<bar> < 12 then
        (if 70 < x \<and> x < 160 \<and> \<bar>current_pressure s - x\<bar> < previous_pressure_diff s then
           (case record_peak_time inp (s\<lparr> pressure_diff := \<bar>current_pressure s - x\<bar> \<rparr>) of
              None \<Rightarrow> None
            | Some sa \<Rightarrow>
                (case record_envelope_point x sa of
                   None \<Rightarrow> None
                 | Some sb \<Rightarrow> Some (sb\<lparr> previous_pressure_diff := pressure_diff sb \<rparr>)))
         else Some (s\<lparr> pressure_diff := \<bar>current_pressure s - x\<bar>,
                       previous_pressure_diff := \<bar>current_pressure s - x\<bar> \<rparr>))
      else Some s)"
  by (simp add: record_oscillation_def MIN_OMWE_THRESH_def MAX_OMWE_THRESH_def Let_def
           split: option.splits bind_splits)

lemma record_oscillation_effect:
  assumes "record_oscillation inp n s = Some s'"
  shows "(same_envelope s s' \<and> same_times s s')
       \<or> (\<exists>x. n = Fin x \<and> 70 < x \<and> x < 160 \<and> active_recordflag s
              \<and> \<bar>current_pressure s - x\<bar> < previous_pressure_diff s
              \<and> point_appended x s s'
              \<and> (same_times s s' \<and> time_too_close inp s \<or> time_appended inp s s'))"
proof (cases n)
  case NaN
  then show ?thesis using assms
    by (simp add: record_oscillation_NaN same_envelope_def same_times_def)
next
  case (Fin x)
  show ?thesis
  proof (cases "active_recordflag s \<and> \<bar>current_pressure s - x\<bar> < 12")
    case False
    then have "s' = s" using assms Fin by (auto simp: record_oscillation_Fin)
    then show ?thesis by (simp add: same_envelope_def same_times_def)
  next
    case act: True
    show ?thesis
    proof (cases "70 < x \<and> x < 160 \<and> \<bar>current_pressure s - x\<bar> < previous_pressure_diff s")
      case False
      then have "s' = s\<lparr> pressure_diff := \<bar>current_pressure s - x\<bar>,
                         previous_pressure_diff := \<bar>current_pressure s - x\<bar> \<rparr>"
        using assms Fin act by (auto simp: record_oscillation_Fin)
      then show ?thesis by (simp add: same_envelope_def same_times_def)
    next
      case True
      let ?s1 = "s\<lparr> pressure_diff := \<bar>current_pressure s - x\<bar> \<rparr>"
      from assms Fin True act obtain sa sb where
        a: "record_peak_time inp ?s1 = Some sa" and
        b: "record_envelope_point x sa = Some sb" and
        c: "s' = sb\<lparr> previous_pressure_diff := pressure_diff sb \<rparr>"
        by (auto simp: record_oscillation_Fin split: option.splits)
      note eb = record_envelope_point_effect[OF b]
      from record_peak_time_effect[OF a] consider
        (close) "sa = ?s1" "time_too_close inp s"
        | (stored) t where "omwetime_buffer_pointer s < length (omwe_buffer_time s)"
            "sa = ?s1\<lparr> omwe_buffer_time := (omwe_buffer_time s)[omwetime_buffer_pointer s := t],
                        omwetime_buffer_pointer := Suc (omwetime_buffer_pointer s) \<rparr>"
            "omwetime_buffer_pointer s = 0 \<and> t = real_of_int (read_ms_first inp)
             \<or> 0 < omwetime_buffer_pointer s
               \<and> real_of_int (read_ms_first inp)
                   - omwe_buffer_time s ! (omwetime_buffer_pointer s - 1) > 500
               \<and> t = real_of_int (read_ms_second inp)"
        by (auto simp: time_too_close_def)
      then have "point_appended x s s'
            \<and> (same_times s s' \<and> time_too_close inp s \<or> time_appended inp s s')"
      proof cases
        case close
        then show ?thesis using eb c
          by (simp add: point_appended_def same_times_def)
      next
        case stored
        then show ?thesis using eb c
          by (auto simp: point_appended_def time_appended_def)
      qed
      then show ?thesis using Fin True act by blast
    qed
  qed
qed

lemma record_peak_time_frame:
  assumes "record_peak_time inp s = Some s'"
  shows "buffer_queue s' = buffer_queue s \<and> iteration s' = iteration s
       \<and> peak_pressure_diff s' = peak_pressure_diff s
       \<and> Mean_Arterial_Pressure s' = Mean_Arterial_Pressure s
       \<and> flux_warning s' = flux_warning s \<and> release_rate s' = release_rate s
       \<and> current_pressure s' = current_pressure s
       \<and> caliberated_MIN_OUT s' = caliberated_MIN_OUT s
       \<and> active_recordflag s' = active_recordflag s \<and> active_flag s' = active_flag s
       \<and> end_record s' = end_record s \<and> pressure_diff s' = pressure_diff s"
  using record_peak_time_effect[OF assms] by auto

lemma record_envelope_point_frame:
  assumes "record_envelope_point x s = Some s'"
  shows "buffer_queue s' = buffer_queue s \<and> iteration s' = iteration s
       \<and> peak_pressure_diff s' = peak_pressure_diff s
       \<and> Mean_Arterial_Pressure s' = Mean_Arterial_Pressure s
       \<and> flux_warning s' = flux_warning s \<and> release_rate s' = release_rate s
       \<and> current_pressure s' = current_pressure s
       \<and> caliberated_MIN_OUT s' = caliberated_MIN_OUT s
       \<and> active_recordflag s' = active_recordflag s \<and> active_flag s' = active_flag s
       \<and> end_record s' = end_record s \<and> pressure_diff s' = pressure_diff s"
  using record_envelope_point_effect[OF assms] by auto

lemma record_oscillation_frame:
  assumes "record_oscillation inp n s = Some s'"
  shows "buffer_queue s' = buffer_queue s \<and> iteration s' = iteration s
       \<and> peak_pressure_diff s' = peak_pressure_diff s
       \<and> Mean_Arterial_Pressure s' = Mean_Arterial_Pressure s
       \<and> flux_warning s' = flux_warning s \<and> release_rate s' = release_rate s
       \<and> current_pressure s' = current_pressure s
       \<and> caliberated_MIN_OUT s' = caliberated_MIN_OUT s
       \<and> active_recordflag s' = active_recordflag s \<and> active_flag s' = active_flag s
       \<and> end_record s' = end_record s"
proof (cases n)
  case NaN
  then show ?thesis using assms by (simp add: record_oscillation_NaN)
next
  case (Fin x)
  show ?thesis
  proof (cases "active_recordflag s \<and> \<bar>current_pressure s - x\<bar> < 12")
    case False
    then have "s' = s" using assms Fin by (auto simp: record_oscillation_Fin)
    then show ?thesis by simp
  next
    case act: True
    show ?thesis
    proof (cases "70 < x \<and> x < 160 \<and> \<bar>current_pressure s - x\<bar> < previous_pressure_diff s")
      case False
      then have "s' = s\<lparr> pressure_diff := \<bar>current_pressure s - x\<bar>,
                         previous_pressure_diff := \<bar>current_pressure s - x\<bar> \<rparr>"
        using assms Fin act by (auto simp: record_oscillation_Fin)
      then show ?thesis by simp
    next
      case True
      let ?s1 = "s\<lparr> pressure_diff := \<bar>current_pressure s - x\<bar> \<rparr>"
      from assms Fin True act obtain sa sb where
        a: "record_peak_time inp ?s1 = Some sa" and
        b: "record_envelope_point x sa = Some sb" and
        c: "s' = sb\<lparr> previous_pressure_diff := pressure_diff sb \<rparr>"
        by (auto simp: record_oscillation_Fin split: option.splits)
      show ?thesis
        using record_peak_time_frame[OF a] record_envelope_point_frame[OF b] c by simp
    qed
  qed
qed


lemma store_sample_effect:
  assumes "store_sample v s = Some s'"
  shows "iteration s < LONG_MAX \<and> iteration s mod 5 < length (buffer_queue s)
       \<and> s' = s\<lparr> buffer_queue := (buffer_queue s)[iteration s mod 5 := v],
                 iteration := Suc (iteration s) \<rparr>"
  using assms
  by (auto simp: store_sample_def array_store_def split: if_splits bind_splits)

lemma MAP_calculator_frame:
  "omwegraph_absicissa_buffer (MAP_calculator s) = omwegraph_absicissa_buffer s"
  "omwegraph_ordinate_buffer (MAP_calculator s) = omwegraph_ordinate_buffer s"
  "omwebuffer_pointer (MAP_calculator s) = omwebuffer_pointer s"
  "omwe_buffer_time (MAP_calculator s) = omwe_buffer_time s"
  "omwetime_buffer_pointer (MAP_calculator s) = omwetime_buffer_pointer s"
  "buffer_queue (MAP_calculator s) = buffer_queue s"
  "pressure_diff (MAP_calculator s) = pressure_diff s"
  "previous_pressure_diff (MAP_calculator s) = previous_pressure_diff s"
  "iteration (MAP_calculator s) = iteration s"
  "flux_warning (MAP_calculator s) = flux_warning s"
  "release_rate (MAP_calculator s) = release_rate s"
  "current_pressure (MAP_calculator s) = current_pressure s"
  "caliberated_MIN_OUT (MAP_calculator s) = caliberated_MIN_OUT s"
  "active_recordflag (MAP_calculator s) = active_recordflag s"
  "active_flag (MAP_calculator s) = active_flag s"
  "end_record (MAP_calculator s) = end_record s"
  by (simp_all add: MAP_calculator_def Let_def)

lemma signal_limits_frame:
  "omwegraph_absicissa_buffer (signal_limits n s) = omwegraph_absicissa_buffer s"
  "omwegraph_ordinate_buffer (signal_limits n s) = omwegraph_ordinate_buffer s"
  "omwebuffer_pointer (signal_limits n s) = omwebuffer_pointer s"
  "omwe_buffer_time (signal_limits n s) = omwe_buffer_time s"
  "omwetime_buffer_pointer (signal_limits n s) = omwetime_buffer_pointer s"
  "buffer_queue (signal_limits n s) = buffer_queue s"
  "pressure_diff (signal_limits n s) = pressure_diff s"
  "previous_pressure_diff (signal_limits n s) = previous_pressure_diff s"
  "peak_pressure_diff (signal_limits n s) = peak_pressure_diff s"
  "Mean_Arterial_Pressure (signal_limits n s) = Mean_Arterial_Pressure s"
  "iteration (signal_limits n s) = iteration s"
  "flux_warning (signal_limits n s) = flux_warning s"
  "release_rate (signal_limits n s) = release_rate s"
  "current_pressure (signal_limits n s) = current_pressure s"
  "caliberated_MIN_OUT (signal_limits n s) = caliberated_MIN_OUT s"
  "active_recordflag (signal_limits n s) = active_recordflag s"
  "active_flag (signal_limits n s) = active_flag s"
  by (simp_all add: signal_limits_def Let_def)

lemma bind_case: "Option.bind m f = (case m of None \<Rightarrow> None | Some x \<Rightarrow> f x)"
  by (cases m) simp_all

lemma measure_pressure_unfold:
  "measure_pressure inp s =
     (case record_oscillation inp (calculate_normalized_pressure (buffer_queue s))
             (s\<lparr> active_recordflag := (dataread_push_button inp \<or> active_recordflag s),
                 active_flag := (dataread_push_button inp \<or> active_recordflag s),
                 current_pressure :=
                   scaler * real_of_int (spi_pressure_data inp - caliberated_MIN_OUT s) \<rparr>) of
        None \<Rightarrow> None
      | Some s4 \<Rightarrow>
          (case store_sample (scaler * real_of_int (spi_pressure_data inp - caliberated_MIN_OUT s)) s4 of
             None \<Rightarrow> None
           | Some s5 \<Rightarrow>
               Some (spi_pressure_data inp,
                     signal_limits (calculate_normalized_pressure (buffer_queue s))
                       (MAP_calculator s5))))"
proof (cases "dataread_push_button inp")
  case True
  then show ?thesis
    unfolding measure_pressure_def Let_def bind_case by (simp cong: option.case_cong)
next
  case False
  then show ?thesis
    unfolding measure_pressure_def Let_def bind_case by (simp cong: option.case_cong)
qed


lemma measure_pressure_split:
  assumes "measure_pressure inp s = Some (d, s')"
  obtains s3 s4 s5 where
    "s3 = s\<lparr> active_recordflag := (dataread_push_button inp \<or> active_recordflag s),
              active_flag := (dataread_push_button inp \<or> active_recordflag s),
              current_pressure :=
                scaler * real_of_int (spi_pressure_data inp - caliberated_MIN_OUT s) \<rparr>"
    "record_oscillation inp (calculate_normalized_pressure (buffer_queue s)) s3 = Some s4"
    "store_sample (scaler * real_of_int (spi_pressure_data inp - caliberated_MIN_OUT s)) s4 = Some s5"
    "s' = signal_limits (calculate_normalized_pressure (buffer_queue s)) (MAP_calculator s5)"
    "d = spi_pressure_data inp"
proof -
  let ?s3 = "s\<lparr> active_recordflag := (dataread_push_button inp \<or> active_recordflag s),
              active_flag := (dataread_push_button inp \<or> active_recordflag s),
              current_pressure :=
                scaler * real_of_int (spi_pressure_data inp - caliberated_MIN_OUT s) \<rparr>"
  let ?n = "calculate_normalized_pressure (buffer_queue s)"
  let ?v = "scaler * real_of_int (spi_pressure_data inp - caliberated_MIN_OUT s)"
  note m = assms [unfolded measure_pressure_unfold]
  show thesis
  proof (cases "record_oscillation inp ?n ?s3")
    case None
    then show ?thesis using m by (simp only: option.case) simp
  next
    case ro: (Some s4)
    show ?thesis
    proof (cases "store_sample ?v s4")
      case None
      then show ?thesis using m ro by (simp only: option.case) simp
    next
      case st: (Some s5)
      from m have "Some (spi_pressure_data inp, signal_limits ?n (MAP_calculator s5)) = Some (d, s')"
        by (simp only: ro st option.case)
      then have "d = spi_pressure_data inp" "s' = signal_limits ?n (MAP_calculator s5)"
        by (simp_all only: option.inject prod.inject)
      then show ?thesis using that[OF refl ro st] by blast
    qed
  qed
qed

lemma measure_pressure_envelope:
  assumes "measure_pressure inp s = Some (d, s')"
  shows "(same_envelope s s' \<and> same_times s s')
       \<or> (\<exists>x. calculate_normalized_pressure (buffer_queue s) = Fin x \<and> 70 < x \<and> x < 160
              \<and> point_appended x s s'
              \<and> (same_times s s' \<and> time_too_close inp s \<or> time_appended inp s s'))"
proof -
  from assms obtain s3 s4 s5 where
    s3: "s3 = s\<lparr> active_recordflag := (dataread_push_button inp \<or> active_recordflag s),
              active_flag := (dataread_push_button inp \<or> active_recordflag s),
              current_pressure :=
                scaler * real_of_int (spi_pressure_data inp - caliberated_MIN_OUT s) \<rparr>" and
    ro: "record_oscillation inp (calculate_normalized_pressure (buffer_queue s)) s3 = Some s4" and
    st: "store_sample (scaler * real_of_int (spi_pressure_data inp - caliberated_MIN_OUT s)) s4 = Some s5" and
    s': "s' = signal_limits (calculate_normalized_pressure (buffer_queue s)) (MAP_calculator s5)"
    by (rule measure_pressure_split)
  have e3: "same_envelope s3 s = True" "same_times s3 s = True"
       "\<And>x. point_appended x s3 s4 = point_appended x s s4"
       "time_appended inp s3 s4 = time_appended inp s s4"
       "time_too_close inp s3 = time_too_close inp s"
       "same_envelope s3 s4 = same_envelope s s4" "same_times s3 s4 = same_times s s4"
    by (simp_all add: s3 same_envelope_def same_times_def point_appended_def
                      time_appended_def time_too_close_def)
  have e5: "omwegraph_absicissa_buffer s' = omwegraph_absicissa_buffer s4"
       "omwegraph_ordinate_buffer s' = omwegraph_ordinate_buffer s4"
       "omwebuffer_pointer s' = omwebuffer_pointer s4"
       "omwe_buffer_time s' = omwe_buffer_time s4"
       "omwetime_buffer_pointer s' = omwetime_buffer_pointer s4"
    using store_sample_effect[OF st]
    by (simp_all add: s' signal_limits_frame MAP_calculator_frame)
  have e4: "\<And>x. point_appended x s s' = point_appended x s s4"
       "time_appended inp s s' = time_appended inp s s4"
       "same_envelope s s' = same_envelope s s4" "same_times s s' = same_times s s4"
    by (simp_all add: e5 same_envelope_def same_times_def point_appended_def time_appended_def)
  show ?thesis
    using record_oscillation_effect[OF ro] unfolding e3 e4 by blast
qed

lemma measure_pressure_frame:
  assumes "measure_pressure inp s = Some (d, s')"
  shows "flux_warning s' = flux_warning s" "release_rate s' = release_rate s"
    "iteration s' = Suc (iteration s)" "caliberated_MIN_OUT s' = caliberated_MIN_OUT s"
    "d = spi_pressure_data inp"
proof -
  from assms obtain s3 s4 s5 where
    s3: "s3 = s\<lparr> active_recordflag := (dataread_push_button inp \<or> active_recordflag s),
              active_flag := (dataread_push_button inp \<or> active_recordflag s),
              current_pressure :=
                scaler * real_of_int (spi_pressure_data inp - caliberated_MIN_OUT s) \<rparr>" and
    ro: "record_oscillation inp (calculate_normalized_pressure (buffer_queue s)) s3 = Some s4" and
    st: "store_sample (scaler * real_of_int (spi_pressure_data inp - caliberated_MIN_OUT s)) s4 = Some s5" and
    s': "s' = signal_limits (calculate_normalized_pressure (buffer_queue s)) (MAP_calculator s5)" and
    d: "d = spi_pressure_data inp"
    by (rule measure_pressure_split)
  note f = record_oscillation_frame[OF ro] store_sample_effect[OF st]
  show "flux_warning s' = flux_warning s" "release_rate s' = release_rate s"
    "iteration s' = Suc (iteration s)" "caliberated_MIN_OUT s' = caliberated_MIN_OUT s"
    using f by (simp_all add: s' s3 signal_limits_frame MAP_calculator_frame)
  show "d = spi_pressure_data inp" by (rule d)
qed

lemma measure_pressure_MAP:
  assumes "measure_pressure inp s = Some (d, s')"
  obtains s5 where
    "peak_pressure_diff s5 = peak_pressure_diff s"
    "Mean_Arterial_Pressure s5 = Mean_Arterial_Pressure s"
    "peak_pressure_diff s' = peak_pressure_diff (MAP_calculator s5)"
    "Mean_Arterial_Pressure s' = Mean_Arterial_Pressure (MAP_calculator s5)"
    "buffer_queue s' = buffer_queue s5"
    "pressure_diff s' = pressure_diff s5"
proof -
  from assms obtain s3 s4 s5 where
    s3: "s3 = s\<lparr> active_recordflag := (dataread_push_button inp \<or> active_recordflag s),
              active_flag := (dataread_push_button inp \<or> active_recordflag s),
              current_pressure :=
                scaler * real_of_int (spi_pressure_data inp - caliberated_MIN_OUT s) \<rparr>" and
    ro: "record_oscillation inp (calculate_normalized_pressure (buffer_queue s)) s3 = Some s4" and
    st: "store_sample (scaler * real_of_int (spi_pressure_data inp - caliberated_MIN_OUT s)) s4 = Some s5" and
    s': "s' = signal_limits (calculate_normalized_pressure (buffer_queue s)) (MAP_calculator s5)"
    by (rule measure_pressure_split)
  note f = record_oscillation_frame[OF ro] store_sample_effect[OF st]
  show thesis
  proof (rule that[of s5])
    show "peak_pressure_diff s5 = peak_pressure_diff s"
      "Mean_Arterial_Pressure s5 = Mean_Arterial_Pressure s"
      using f by (simp_all add: s3)
    show "peak_pressure_diff s' = peak_pressure_diff (MAP_calculator s5)"
      "Mean_Arterial_Pressure s' = Mean_Arterial_Pressure (MAP_calculator s5)"
      "buffer_queue s' = buffer_queue s5"
      "pressure_diff s' = pressure_diff s5"
      by (simp_all add: s' signal_limits_frame MAP_calculator_frame)
  qed
qed

lemma check_pressure_gradient_ISR_frame:
  "omwegraph_absicissa_buffer (check_pressure_gradient_ISR s) = omwegraph_absicissa_buffer s"
  "omwegraph_ordinate_buffer (check_pressure_gradient_ISR s) = omwegraph_ordinate_buffer s"
  "omwebuffer_pointer (check_pressure_gradient_ISR s) = omwebuffer_pointer s"
  "omwe_buffer_time (check_pressure_gradient_ISR s) = omwe_buffer_time s"
  "omwetime_buffer_pointer (check_pressure_gradient_ISR s) = omwetime_buffer_pointer s"
  "peak_pressure_diff (check_pressure_gradient_ISR s) = peak_pressure_diff s"
  "Mean_Arterial_Pressure (check_pressure_gradient_ISR s) = Mean_Arterial_Pressure s"
  "iteration (check_pressure_gradient_ISR s) = iteration s"
  by (simp_all add: check_pressure_gradient_ISR_def Let_def)

text \<open>Invariants of a session.\<close>

lemma caliberate_loop_invariant:
  assumes step: "\<And>inp s d s'. P inp \<Longrightarrow> I s \<Longrightarrow> measure_pressure inp s = Some (d, s') \<Longrightarrow> I s'"
    and "\<forall>x \<in> set ins. P x" and "I s" and "caliberate_loop ins acc s = Some (acc', s')"
  shows "I s'"
  using assms(2-)
proof (induction ins arbitrary: acc s)
  case Nil
  then show ?case by simp
next
  case (Cons x ins)
  from Cons.prems(3) obtain d t where
    m: "measure_pressure x s = Some (d, t)" and
    r: "caliberate_loop ins ((acc + d) mod 2 ^ 32) t = Some (acc', s')"
    by (auto split: option.splits)
  have "I t" using step[OF _ Cons.prems(2) m] Cons.prems(1) by simp
  then show ?case using Cons.IH[OF _ _ r] Cons.prems(1) by simp
qed

lemma sampling_loop_invariant:
  assumes step: "\<And>inp s d s'. P inp \<Longrightarrow> I s \<Longrightarrow> measure_pressure inp s = Some (d, s') \<Longrightarrow> I s'"
    and isr: "\<And>s. I s \<Longrightarrow> I (check_pressure_gradient_ISR s)"
    and "\<forall>x \<in> set (samples_of es). P x" and "I s" and "sampling_loop es s = Some s'"
  shows "I s'"
  using assms(3-)
proof (induction es s rule: sampling_loop.induct)
  case (1 s)
  then show ?case by simp
next
  case (2 es s)
  then show ?case using isr by simp
next
  case (3 inp es s)
  show ?case
  proof (cases "end_record s")
    case True
    then show ?thesis using 3 by simp
  next
    case False
    with "3.prems"(3) obtain d t where
      m: "measure_pressure inp s = Some (d, t)" and r: "sampling_loop es t = Some s'"
      by (auto split: option.splits)
    have "I t" using step[OF _ "3.prems"(2) m] "3.prems"(1) by simp
    then show ?thesis using "3.IH"(2)[OF False m refl _ _ r] "3.prems"(1) by simp
  qed
qed

lemma session_invariant:
  assumes step: "\<And>inp s d s'. P inp \<Longrightarrow> I s \<Longrightarrow> measure_pressure inp s = Some (d, s') \<Longrightarrow> I s'"
    and isr: "\<And>s. I s \<Longrightarrow> I (check_pressure_gradient_ISR s)"
    and cal: "\<And>s c. I s \<Longrightarrow> I (s\<lparr> caliberated_MIN_OUT := c \<rparr>)"
    and init: "I initial_state"
    and P: "\<forall>x \<in> set (map sensor [0..<100] @ samples_of es). P x"
    and run: "session sensor es = Some s'"
  shows "I s'"
proof -
  from run obtain acc t where
    c: "caliberate_loop (map sensor [0..<100]) 0 initial_state = Some (acc, t)" and
    r: "sampling_loop es (t\<lparr> caliberated_MIN_OUT := acc div 100 \<rparr>) = Some s'"
    by (auto simp: session_def auto_caliberate_def split: option.splits)
  have "I t"
    using caliberate_loop_invariant[of P I, OF step _ init c] P by simp
  then have "I (t\<lparr> caliberated_MIN_OUT := acc div 100 \<rparr>)" by (rule cal)
  then show ?thesis
    using sampling_loop_invariant[of P I, OF step isr _ _ r] P by simp
qed

lemma sampling_loop_append:
  "sampling_loop (es @ es') s =
     (case sampling_loop es s of None \<Rightarrow> None | Some t \<Rightarrow> sampling_loop es' t)"
  by (induction es s rule: sampling_loop.induct) (auto split: option.splits)

lemma session_append:
  "session sensor (es @ es') =
     (case session sensor es of None \<Rightarrow> None | Some t \<Rightarrow> sampling_loop es' t)"
  by (simp add: session_def sampling_loop_append split: option.splits)

section \<open>The example session, evaluated\<close>

lemmas eval_defs =
  measure_pressure_unfold record_oscillation_NaN record_oscillation_Fin record_peak_time_def
  record_envelope_point_def array_load_def array_store_def store_sample_def LONG_MAX_def
  MAP_calculator_def signal_limits_def normalized_eval scaler_def OUTPUT_MAX_def OUTPUT_MIN_def PRESSURE_MAX_def
  PRESSURE_MIN_def MIN_OMWE_THRESH_def check_pressure_gradient_ISR_def Let_def
  reading_def

lemma high_step: "measure_pressure high_sample high_state = Some (2236962, high_state_after)"
  by (simp add: eval_defs high_sample_def high_state_def high_state_after_def calibrated_state_def
        initial_state_def)

lemmas example_states =
  example_before_def example_middle_def example_close_def example_final_def
  calibrated_state_def initial_state_def

lemma example_start_run: "sampling_loop example_start calibrated_state = Some example_before"
  by (simp add: eval_defs example_start_def example_states)

lemma example_peak_step: "measure_pressure peak_sample example_before = Some (1225003, example_middle)"
  by (simp add: eval_defs peak_sample_def example_states)

lemma example_close_step: "measure_pressure close_sample example_middle = Some (1171742, example_close)"
  by (simp add: eval_defs close_sample_def example_states)

lemma example_rest_run: "sampling_loop example_rest example_close = Some example_final"
  by (simp add: eval_defs example_rest_def example_states)

lemma list_update_same: "(\<And>x. x \<in> set xs \<Longrightarrow> x = v) \<Longrightarrow> xs[i := v] = xs"
  by (induction xs arbitrary: i) (auto split: nat.splits)

lemma idle_step:
  "k < 2147483647 \<Longrightarrow>
   measure_pressure idle_sample (initial_state\<lparr> iteration := k \<rparr>)
     = Some (0, initial_state\<lparr> iteration := Suc k \<rparr>)"
proof -
  assume k: "k < 2147483647"
  have q: "[0, 0, 0, 0, 0 :: real][k mod 5 := 0] = [0, 0, 0, 0, 0]"
    by (rule list_update_same) auto
  show ?thesis using k q
    by (simp add: eval_defs idle_sample_def initial_state_def)
qed

lemma idle_caliberate_loop:
  "k + n < 2147483647 \<Longrightarrow>
   caliberate_loop (replicate n idle_sample) 0 (initial_state\<lparr> iteration := k \<rparr>)
     = Some (0, initial_state\<lparr> iteration := k + n \<rparr>)"
proof (induction n arbitrary: k)
  case 0
  then show ?case by simp
next
  case (Suc n)
  have "Suc k + n < 2147483647" using Suc.prems by simp
  from Suc.IH[OF this] show ?case using Suc.prems by (simp add: idle_step)
qed

lemma idle_calibration:
  "auto_caliberate (\<lambda>_. idle_sample) initial_state = Some calibrated_state"
proof -
  have i: "initial_state = initial_state\<lparr> iteration := 0 \<rparr>"
    by (simp add: initial_state_def)
  have "caliberate_loop (replicate 100 idle_sample) 0 (initial_state\<lparr> iteration := 0 \<rparr>)
        = Some (0, initial_state\<lparr> iteration := 0 + 100 \<rparr>)"
    by (rule idle_caliberate_loop) simp
  then have "caliberate_loop (map (\<lambda>_. idle_sample) [0..<100]) 0 initial_state
        = Some (0, initial_state\<lparr> iteration := 100 \<rparr>)"
    using i by (simp add: map_replicate_const)
  then show ?thesis
    by (simp add: auto_caliberate_def calibrated_state_def initial_state_def)
qed

lemma example_running:
  "\<not> end_record example_before" "\<not> end_record example_middle" "\<not> end_record example_close"
  by (simp_all add: example_states)

lemma example_session: "session (\<lambda>_. idle_sample) example_events = Some example_final"
  by (simp add: session_def idle_calibration example_events_def sampling_loop_append
        example_start_run example_peak_step example_close_step example_rest_run example_running)

lemma example_prefix:
  "session (\<lambda>_. idle_sample) (example_start @ [Sample peak_sample]) = Some example_middle"
  by (simp add: session_def idle_calibration sampling_loop_append
        example_start_run example_peak_step example_running)

lemma concat_replicate_pair: "concat (replicate n [a, a]) = replicate (2 * n) a"
  by (induction n) simp_all

lemma example_clock:
  "clock_monotonic (map (\<lambda>_. idle_sample) [0..<100] @ samples_of example_events)"
proof -
  have "concat (map (\<lambda>x. [read_ms_first x, read_ms_second x]) (map (\<lambda>_. idle_sample) [0..<100]))
        = replicate 200 0"
    by (simp add: map_replicate_const idle_sample_def concat_replicate_pair)
  then show ?thesis
    by (simp add: clock_monotonic_def sorted_append example_events_def example_start_def
          example_rest_def reading_def peak_sample_def close_sample_def)
qed

section \<open>Properties of a session\<close>

subsection \<open>The envelope band\<close>

lemma envelope_band_step:
  assumes "measure_pressure inp s = Some (d, s')"
    and "\<forall>i < omwebuffer_pointer s. 70 < omwegraph_absicissa_buffer s ! i
                                     \<and> omwegraph_absicissa_buffer s ! i < 160"
  shows "\<forall>i < omwebuffer_pointer s'. 70 < omwegraph_absicissa_buffer s' ! i
                                     \<and> omwegraph_absicissa_buffer s' ! i < 160"
proof -
  from measure_pressure_envelope[OF assms(1)]
  have "same_envelope s s' \<or> (\<exists>x. 70 < x \<and> x < 160 \<and> point_appended x s s')"
    by blast
  then show ?thesis
  proof (elim disjE exE conjE)
  assume "same_envelope s s'"
  then show ?thesis using assms(2) by (simp add: same_envelope_def)
next
  fix x
  assume x: "70 < x" "x < 160" and p: "point_appended x s s'"
  show ?thesis
  proof (intro allI impI)
    fix i
    assume "i < omwebuffer_pointer s'"
    then have "i < omwebuffer_pointer s \<or> i = omwebuffer_pointer s"
      using p by (auto simp: point_appended_def)
    then show "70 < omwegraph_absicissa_buffer s' ! i \<and> omwegraph_absicissa_buffer s' ! i < 160"
      using p x assms(2) by (auto simp: point_appended_def nth_list_update)
  qed
qed
qed

lemma envelope_band_session:
  assumes "session sensor es = Some s"
  shows "\<forall>i < omwebuffer_pointer s. 70 < omwegraph_absicissa_buffer s ! i
                                    \<and> omwegraph_absicissa_buffer s ! i < 160"
proof (rule session_invariant[where P = "\<lambda>_. True" and es = es and sensor = sensor
        and I = "\<lambda>s. \<forall>i < omwebuffer_pointer s. 70 < omwegraph_absicissa_buffer s ! i
                                    \<and> omwegraph_absicissa_buffer s ! i < 160"])
  show "session sensor es = Some s" by (rule assms)
qed (simp_all add: envelope_band_step check_pressure_gradient_ISR_frame initial_state_def)

text \<open>
  Claim C6. At every point of a session every recorded envelope point has its abscissa
  within \<open>[70, 160]\<close>; a call of \<open>measure_pressure\<close> either leaves the envelope as it
  was or appends one point whose abscissa is the normalized pressure of that call, which
  then lies in the band; and when the normalized pressure is undefined, below 70 or above
  160, the call leaves the envelope as it was.
\<close>
theorem envelope_abscissa_in_band:
  "(session sensor es = Some s \<longrightarrow>
      (\<forall>i < omwebuffer_pointer s. 70 \<le> omwegraph_absicissa_buffer s ! i
                                 \<and> omwegraph_absicissa_buffer s ! i \<le> 160))
   \<and> (measure_pressure inp s0 = Some (d, s1) \<longrightarrow>
        same_envelope s0 s1
        \<or> (\<exists>x. calculate_normalized_pressure (buffer_queue s0) = Fin x
                \<and> 70 \<le> x \<and> x \<le> 160 \<and> point_appended x s0 s1))
   \<and> (measure_pressure inp s0 = Some (d, s1) \<longrightarrow>
        (calculate_normalized_pressure (buffer_queue s0) = NaN
         \<or> (\<exists>x. calculate_normalized_pressure (buffer_queue s0) = Fin x \<and> (x < 70 \<or> 160 < x)))
        \<longrightarrow> same_envelope s0 s1)"
proof (intro conjI impI)
  assume "session sensor es = Some s"
  from envelope_band_session[OF this]
  show "\<forall>i < omwebuffer_pointer s. 70 \<le> omwegraph_absicissa_buffer s ! i
                                  \<and> omwegraph_absicissa_buffer s ! i \<le> 160"
    by (auto simp: less_imp_le)
next
  assume "measure_pressure inp s0 = Some (d, s1)"
  from measure_pressure_envelope[OF this]
  show "same_envelope s0 s1
        \<or> (\<exists>x. calculate_normalized_pressure (buffer_queue s0) = Fin x
                \<and> 70 \<le> x \<and> x \<le> 160 \<and> point_appended x s0 s1)"
    by (auto simp: less_imp_le)
next
  assume m: "measure_pressure inp s0 = Some (d, s1)"
    and o: "calculate_normalized_pressure (buffer_queue s0) = NaN
         \<or> (\<exists>x. calculate_normalized_pressure (buffer_queue s0) = Fin x \<and> (x < 70 \<or> 160 < x))"
  from measure_pressure_envelope[OF m] o
  show "same_envelope s0 s1" by auto
qed

theorem envelope_abscissa_in_band_witness:
  "session (\<lambda>_. idle_sample) example_events = Some example_final
   \<and> omwebuffer_pointer example_final = 3
   \<and> 70 \<le> omwegraph_absicissa_buffer example_final ! 0
   \<and> omwegraph_absicissa_buffer example_final ! 0 \<le> 160
   \<and> 70 \<le> omwegraph_absicissa_buffer example_final ! 1
   \<and> omwegraph_absicissa_buffer example_final ! 1 \<le> 160
   \<and> 70 \<le> omwegraph_absicissa_buffer example_final ! 2
   \<and> omwegraph_absicissa_buffer example_final ! 2 \<le> 160
   \<and> measure_pressure close_sample example_middle = Some (1171742, example_close)
   \<and> calculate_normalized_pressure (buffer_queue example_middle) = Fin (2200 / 21)
   \<and> point_appended (2200 / 21) example_middle example_close
   \<and> measure_pressure high_sample high_state = Some (2236962, high_state_after)
   \<and> calculate_normalized_pressure (buffer_queue high_state) = Fin 200
   \<and> same_envelope high_state high_state_after"
proof -
  note t = envelope_abscissa_in_band
  have a: "\<forall>i < omwebuffer_pointer example_final.
             70 \<le> omwegraph_absicissa_buffer example_final ! i
             \<and> omwegraph_absicissa_buffer example_final ! i \<le> 160"
    using t [of "\<lambda>_. idle_sample" example_events example_final] example_session by blast
  have p: "omwebuffer_pointer example_final = 3"
    by (simp add: example_states)
  have n: "calculate_normalized_pressure (buffer_queue example_middle) = Fin (2200 / 21)"
    "calculate_normalized_pressure (buffer_queue high_state) = Fin 200"
    by (simp_all add: example_states high_state_def normalized_eval)
  have b: "point_appended (2200 / 21) example_middle example_close"
    by (simp add: point_appended_def example_states)
  have c: "same_envelope high_state high_state_after"
    using t [of _ _ _ high_sample high_state 2236962 high_state_after] high_step n(2)
    by simp
  show ?thesis
    using a p n b c example_session example_close_step high_step by simp
qed

subsection \<open>The peak times\<close>

lemma times_spaced_step:
  assumes "measure_pressure inp s = Some (d, s')" and "read_ms_first inp \<le> read_ms_second inp"
    and "times_spaced s"
  shows "times_spaced s'"
proof -
  from measure_pressure_envelope[OF assms(1)]
  have "same_times s s' \<or> time_appended inp s s'" by blast
  then show ?thesis
  proof
    assume "same_times s s'"
    then show ?thesis using assms(3) by (simp add: same_times_def times_spaced_def)
  next
    assume ap: "time_appended inp s s'"
    let ?p = "omwetime_buffer_pointer s"
    have len: "?p < length (omwe_buffer_time s)" and p': "omwetime_buffer_pointer s' = Suc ?p"
      using ap by (simp_all add: time_appended_def)
    have le: "real_of_int (read_ms_first inp) \<le> real_of_int (read_ms_second inp)"
      using assms(2) by simp
    obtain t where t: "omwe_buffer_time s' = (omwe_buffer_time s)[?p := t]"
      and gap: "0 < ?p \<Longrightarrow> omwe_buffer_time s ! (?p - 1) + 500 < t"
      using ap le by (cases "?p = 0") (auto simp: time_appended_def)
    have "omwe_buffer_time s' ! i + 500 < omwe_buffer_time s' ! Suc i" if i: "Suc i < Suc ?p" for i
    proof (cases "Suc i = ?p")
      case True
      then have i': "i = ?p - 1" by simp
      have "omwe_buffer_time s' ! i = omwe_buffer_time s ! (?p - 1)"
        "omwe_buffer_time s' ! Suc i = t"
        using len True by (auto simp: t i')
      then show ?thesis using gap True by simp
    next
      case False
      then have "Suc i < ?p" using i by simp
      then show ?thesis using assms(3) by (simp add: times_spaced_def t)
    qed
    then show ?thesis using len p' t by (simp add: times_spaced_def)
  qed
qed

lemma clock_monotonic_sample:
  "clock_monotonic xs \<Longrightarrow> x \<in> set xs \<Longrightarrow> read_ms_first x \<le> read_ms_second x"
  by (induction xs) (auto simp: clock_monotonic_def)

lemma times_spaced_session:
  assumes "clock_monotonic (map sensor [0..<100] @ samples_of es)"
    and "session sensor es = Some s"
  shows "times_spaced s"
proof (rule session_invariant[where P = "\<lambda>x. read_ms_first x \<le> read_ms_second x"
        and es = es and sensor = sensor and I = times_spaced])
  show "session sensor es = Some s" by (rule assms)
  show "\<forall>x \<in> set (map sensor [0..<100] @ samples_of es). read_ms_first x \<le> read_ms_second x"
    using clock_monotonic_sample[OF assms(1)] by blast
  show "times_spaced initial_state"
    by (simp add: times_spaced_def initial_state_def)
  show "times_spaced s'" if "read_ms_first inp \<le> read_ms_second inp" "times_spaced s"
    "measure_pressure inp s = Some (d, s')" for inp s d s'
    using that by (simp add: times_spaced_step)
  show "times_spaced (check_pressure_gradient_ISR s)" if "times_spaced s" for s
    using that by (simp add: times_spaced_def check_pressure_gradient_ISR_frame)
  show "times_spaced (s\<lparr> caliberated_MIN_OUT := c \<rparr>)" if "times_spaced s" for s c
    using that by (simp add: times_spaced_def)
qed

lemma times_spaced_sorted:
  assumes "times_spaced s"
  shows "sorted_wrt (<) (take (omwetime_buffer_pointer s) (omwe_buffer_time s))"
proof -
  have "\<forall>i. Suc i < length (take (omwetime_buffer_pointer s) (omwe_buffer_time s)) \<longrightarrow>
          take (omwetime_buffer_pointer s) (omwe_buffer_time s) ! i
          < take (omwetime_buffer_pointer s) (omwe_buffer_time s) ! Suc i"
    using assms by (auto simp: times_spaced_def)
  then show ?thesis
    by (simp add: sorted_wrt_iff_nth_Suc_transp)
qed

text \<open>
  Claim C7. With a monotonic clock, at every point of a session the recorded peak times
  are strictly increasing and any two consecutive ones are at least 500 ms apart.
\<close>
theorem peak_times_increasing_and_spaced:
  assumes "clock_monotonic (map sensor [0..<100] @ samples_of es)"
    and "session sensor es = Some s"
  shows "sorted_wrt (<) (take (omwetime_buffer_pointer s) (omwe_buffer_time s))
       \<and> (\<forall>i. Suc i < omwetime_buffer_pointer s \<longrightarrow>
              500 \<le> omwe_buffer_time s ! Suc i - omwe_buffer_time s ! i)"
proof -
  have t: "times_spaced s" by (rule times_spaced_session[OF assms])
  have "\<forall>i. Suc i < omwetime_buffer_pointer s \<longrightarrow>
              500 \<le> omwe_buffer_time s ! Suc i - omwe_buffer_time s ! i"
  proof (intro allI impI)
    fix i
    assume "Suc i < omwetime_buffer_pointer s"
    then have "omwe_buffer_time s ! i + 500 < omwe_buffer_time s ! Suc i"
      using t by (simp add: times_spaced_def)
    then show "500 \<le> omwe_buffer_time s ! Suc i - omwe_buffer_time s ! i" by simp
  qed
  then show ?thesis using times_spaced_sorted[OF t] by simp
qed

theorem peak_times_increasing_and_spaced_witness:
  "clock_monotonic (map (\<lambda>_. idle_sample) [0..<100] @ samples_of example_events)
   \<and> session (\<lambda>_. idle_sample) example_events = Some example_final
   \<and> omwetime_buffer_pointer example_final = 2
   \<and> sorted_wrt (<) (take 2 (omwe_buffer_time example_final))
   \<and> 500 \<le> omwe_buffer_time example_final ! Suc 0 - omwe_buffer_time example_final ! 0"
proof -
  have p: "omwetime_buffer_pointer example_final = 2"
    by (simp add: example_states)
  show ?thesis
    using peak_times_increasing_and_spaced [OF example_clock example_session] example_clock
      example_session p
    by simp
qed

subsection \<open>Peak times and envelope points are not in lockstep\<close>

lemma pointer_order_step:
  assumes "measure_pressure inp s = Some (d, s')"
    and "omwetime_buffer_pointer s \<le> omwebuffer_pointer s"
  shows "omwetime_buffer_pointer s' \<le> omwebuffer_pointer s'"
  using measure_pressure_envelope[OF assms(1)] assms(2)
  by (auto simp: same_envelope_def same_times_def point_appended_def time_appended_def)

lemma pointer_order_session:
  assumes "session sensor es = Some s"
  shows "omwetime_buffer_pointer s \<le> omwebuffer_pointer s"
proof (rule session_invariant[where P = "\<lambda>_. True" and es = es and sensor = sensor
        and I = "\<lambda>s. omwetime_buffer_pointer s \<le> omwebuffer_pointer s"])
  show "session sensor es = Some s" by (rule assms)
qed (simp_all add: pointer_order_step check_pressure_gradient_ISR_frame initial_state_def)

lemma close_peak_step:
  assumes "measure_pressure inp s = Some (d, s')" and "\<not> same_envelope s s'"
    and "time_too_close inp s"
  shows "same_times s s' \<and> omwebuffer_pointer s' = Suc (omwebuffer_pointer s)"
  using measure_pressure_envelope[OF assms(1)] assms(2,3)
  by (auto simp: point_appended_def time_appended_def time_too_close_def)

text \<open>
  Claim C10. At every point of a session there are at most as many peak times as envelope
  points; some session has strictly fewer; and a call that appends an envelope point
  within 500 ms of the last recorded peak time appends no peak time.
\<close>
theorem peak_times_at_most_envelope_points:
  "(session sensor es = Some s \<longrightarrow> omwetime_buffer_pointer s \<le> omwebuffer_pointer s)
   \<and> (\<exists>es s. session (\<lambda>_. idle_sample) es = Some s
              \<and> omwetime_buffer_pointer s < omwebuffer_pointer s)
   \<and> (measure_pressure inp s0 = Some (d, s1) \<longrightarrow> \<not> same_envelope s0 s1 \<longrightarrow>
        time_too_close inp s0 \<longrightarrow>
        same_times s0 s1 \<and> omwebuffer_pointer s1 = Suc (omwebuffer_pointer s0))"
proof (intro conjI impI)
  assume "session sensor es = Some s"
  then show "omwetime_buffer_pointer s \<le> omwebuffer_pointer s"
    by (rule pointer_order_session)
next
  have "omwetime_buffer_pointer example_final < omwebuffer_pointer example_final"
    by (simp add: example_states)
  then show "\<exists>es s. session (\<lambda>_. idle_sample) es = Some s
              \<and> omwetime_buffer_pointer s < omwebuffer_pointer s"
    using example_session by blast
next
  assume "measure_pressure inp s0 = Some (d, s1)" "\<not> same_envelope s0 s1" "time_too_close inp s0"
  from close_peak_step[OF this]
  show "same_times s0 s1" "omwebuffer_pointer s1 = Suc (omwebuffer_pointer s0)"
    by simp_all
qed

theorem peak_times_at_most_envelope_points_witness:
  "session (\<lambda>_. idle_sample) example_events = Some example_final
   \<and> omwetime_buffer_pointer example_final \<le> omwebuffer_pointer example_final
   \<and> measure_pressure close_sample example_middle = Some (1171742, example_close)
   \<and> \<not> same_envelope example_middle example_close
   \<and> time_too_close close_sample example_middle
   \<and> same_times example_middle example_close
   \<and> omwebuffer_pointer example_close = Suc (omwebuffer_pointer example_middle)"
proof -
  note t = peak_times_at_most_envelope_points
  have a: "omwetime_buffer_pointer example_final \<le> omwebuffer_pointer example_final"
    using t [of "\<lambda>_. idle_sample" example_events example_final] example_session by blast
  have e: "\<not> same_envelope example_middle example_close"
    by (simp add: same_envelope_def example_states)
  have c: "time_too_close close_sample example_middle"
    by (simp add: time_too_close_def close_sample_def example_states)
  have "same_times example_middle example_close
        \<and> omwebuffer_pointer example_close = Suc (omwebuffer_pointer example_middle)"
    using t [of _ _ _ close_sample example_middle 1171742 example_close] example_close_step e c
    by blast
  then show ?thesis using a e c example_session example_close_step by simp
qed

subsection \<open>The MAP tracker\<close>

lemma MAP_calculator_update:
  assumes "peak_pressure_diff s < pressure_diff s"
    and "calculate_normalized_pressure (buffer_queue s) = Fin n" and "70 < n" and "n < 110"
  shows "MAP_calculator s = s\<lparr> peak_pressure_diff := pressure_diff s,
                                Mean_Arterial_Pressure := Fin n \<rparr>"
  using assms by (simp add: MAP_calculator_def Let_def MIN_OMWE_THRESH_def)

lemma MAP_calculator_keep:
  assumes "\<not> (peak_pressure_diff s < pressure_diff s
             \<and> (\<exists>n. calculate_normalized_pressure (buffer_queue s) = Fin n \<and> 70 < n \<and> n < 110))"
  shows "MAP_calculator s = s"
proof (cases "calculate_normalized_pressure (buffer_queue s)")
  case NaN
  then show ?thesis by (simp add: MAP_calculator_def Let_def)
next
  case (Fin n)
  then show ?thesis using assms
    by (auto simp: MAP_calculator_def Let_def MIN_OMWE_THRESH_def)
qed

lemma MAP_step:
  assumes "measure_pressure inp s = Some (d, s')"
  shows "peak_pressure_diff s \<le> peak_pressure_diff s'"
    and "peak_pressure_diff s' \<noteq> peak_pressure_diff s \<Longrightarrow>
           peak_pressure_diff s < pressure_diff s' \<and> peak_pressure_diff s' = pressure_diff s'
           \<and> (\<exists>n. calculate_normalized_pressure (buffer_queue s') = Fin n \<and> 70 < n \<and> n < 110
                  \<and> Mean_Arterial_Pressure s' = Fin n)"
    and "peak_pressure_diff s < pressure_diff s'
         \<and> (\<exists>n. calculate_normalized_pressure (buffer_queue s') = Fin n \<and> 70 < n \<and> n < 110) \<Longrightarrow>
           peak_pressure_diff s' = pressure_diff s'
           \<and> Mean_Arterial_Pressure s' = calculate_normalized_pressure (buffer_queue s')"
proof -
  from assms obtain s5 where
    f: "peak_pressure_diff s5 = peak_pressure_diff s"
       "Mean_Arterial_Pressure s5 = Mean_Arterial_Pressure s"
       "peak_pressure_diff s' = peak_pressure_diff (MAP_calculator s5)"
       "Mean_Arterial_Pressure s' = Mean_Arterial_Pressure (MAP_calculator s5)"
       "buffer_queue s' = buffer_queue s5"
       "pressure_diff s' = pressure_diff s5"
    by (rule measure_pressure_MAP)
  let ?c = "peak_pressure_diff s5 < pressure_diff s5
             \<and> (\<exists>n. calculate_normalized_pressure (buffer_queue s5) = Fin n \<and> 70 < n \<and> n < 110)"
  have k: "\<not> ?c \<Longrightarrow> MAP_calculator s5 = s5" by (rule MAP_calculator_keep)
  have u: "?c \<Longrightarrow> peak_pressure_diff (MAP_calculator s5) = pressure_diff s5
                 \<and> Mean_Arterial_Pressure (MAP_calculator s5)
                     = calculate_normalized_pressure (buffer_queue s5)"
    by (auto simp: MAP_calculator_update)
  show "peak_pressure_diff s \<le> peak_pressure_diff s'"
    using k u f by (cases ?c) auto
  show "peak_pressure_diff s < pressure_diff s' \<and> peak_pressure_diff s' = pressure_diff s'
           \<and> (\<exists>n. calculate_normalized_pressure (buffer_queue s') = Fin n \<and> 70 < n \<and> n < 110
                  \<and> Mean_Arterial_Pressure s' = Fin n)"
    if "peak_pressure_diff s' \<noteq> peak_pressure_diff s"
    using that k u f by (cases ?c) auto
  show "peak_pressure_diff s' = pressure_diff s'
           \<and> Mean_Arterial_Pressure s' = calculate_normalized_pressure (buffer_queue s')"
    if "peak_pressure_diff s < pressure_diff s'
         \<and> (\<exists>n. calculate_normalized_pressure (buffer_queue s') = Fin n \<and> 70 < n \<and> n < 110)"
    using that u f by auto
qed

lemma peak_monotone_loop:
  assumes "sampling_loop es s = Some s'"
  shows "peak_pressure_diff s \<le> peak_pressure_diff s'"
proof (rule sampling_loop_invariant[where P = "\<lambda>_. True" and es = es and s = s
        and I = "\<lambda>t. peak_pressure_diff s \<le> peak_pressure_diff t"])
  show "sampling_loop es s = Some s'" by (rule assms)
  show "peak_pressure_diff s \<le> peak_pressure_diff t'"
    if "peak_pressure_diff s \<le> peak_pressure_diff t" "measure_pressure inp t = Some (d, t')"
    for inp t d t'
    using that MAP_step(1)[OF that(2)] by simp
qed (simp_all add: check_pressure_gradient_ISR_frame)

text \<open>
  Claim C1. \<open>peak_pressure_diff\<close> never decreases from one point of a session to a later
  one. A call of \<open>measure_pressure\<close> changes it only when \<open>pressure_diff\<close> strictly
  exceeds it and the normalized pressure, computed on the queue that holds the new
  reading, lies strictly between 70 and 110; it then becomes \<open>pressure_diff\<close> and
  \<open>Mean_Arterial_Pressure\<close> becomes that normalized pressure, and this happens whenever
  the two conditions hold. The ticker's routine changes neither.
\<close>
theorem MAP_tracker_monotone:
  "(session sensor (es @ es') = Some s' \<longrightarrow>
      (\<exists>s. session sensor es = Some s \<and> peak_pressure_diff s \<le> peak_pressure_diff s'))
   \<and> (measure_pressure inp s0 = Some (d, s1) \<longrightarrow>
        peak_pressure_diff s0 \<le> peak_pressure_diff s1
        \<and> (peak_pressure_diff s1 \<noteq> peak_pressure_diff s0 \<longrightarrow>
             peak_pressure_diff s0 < pressure_diff s1
             \<and> peak_pressure_diff s1 = pressure_diff s1
             \<and> (\<exists>n. calculate_normalized_pressure (buffer_queue s1) = Fin n
                    \<and> 70 < n \<and> n < 110 \<and> Mean_Arterial_Pressure s1 = Fin n))
        \<and> (peak_pressure_diff s0 < pressure_diff s1
             \<and> (\<exists>n. calculate_normalized_pressure (buffer_queue s1) = Fin n \<and> 70 < n \<and> n < 110)
             \<longrightarrow> peak_pressure_diff s1 = pressure_diff s1
                 \<and> Mean_Arterial_Pressure s1 = calculate_normalized_pressure (buffer_queue s1)))
   \<and> peak_pressure_diff (check_pressure_gradient_ISR t) = peak_pressure_diff t
   \<and> Mean_Arterial_Pressure (check_pressure_gradient_ISR t) = Mean_Arterial_Pressure t"
proof (intro conjI impI)
  assume r: "session sensor (es @ es') = Some s'"
  then obtain s where s: "session sensor es = Some s" and l: "sampling_loop es' s = Some s'"
    by (auto simp: session_append split: option.splits)
  show "\<exists>s. session sensor es = Some s \<and> peak_pressure_diff s \<le> peak_pressure_diff s'"
    using s peak_monotone_loop[OF l] by blast
next
  assume m: "measure_pressure inp s0 = Some (d, s1)"
  show "peak_pressure_diff s0 \<le> peak_pressure_diff s1" by (rule MAP_step(1)[OF m])
  {
    assume c: "peak_pressure_diff s1 \<noteq> peak_pressure_diff s0"
    from MAP_step(2)[OF m c]
    show "peak_pressure_diff s0 < pressure_diff s1"
      "peak_pressure_diff s1 = pressure_diff s1"
      "\<exists>n. calculate_normalized_pressure (buffer_queue s1) = Fin n
                    \<and> 70 < n \<and> n < 110 \<and> Mean_Arterial_Pressure s1 = Fin n"
      by simp_all
  }
  {
    assume c: "peak_pressure_diff s0 < pressure_diff s1
             \<and> (\<exists>n. calculate_normalized_pressure (buffer_queue s1) = Fin n \<and> 70 < n \<and> n < 110)"
    from MAP_step(3)[OF m c]
    show "peak_pressure_diff s1 = pressure_diff s1"
      "Mean_Arterial_Pressure s1 = calculate_normalized_pressure (buffer_queue s1)"
      by simp_all
  }
qed (simp_all add: check_pressure_gradient_ISR_frame)

lemma example_start_session: "session (\<lambda>_. idle_sample) example_start = Some example_before"
  by (simp add: session_def idle_calibration example_start_run)

theorem MAP_tracker_monotone_witness:
  "session (\<lambda>_. idle_sample)
       (example_start @ Sample peak_sample # Sample close_sample # example_rest) = Some example_final
   \<and> session (\<lambda>_. idle_sample) example_start = Some example_before
   \<and> peak_pressure_diff example_before \<le> peak_pressure_diff example_final
   \<and> measure_pressure peak_sample example_before = Some (1225003, example_middle)
   \<and> peak_pressure_diff example_before = 100 / 21
   \<and> pressure_diff example_middle = 400 / 63
   \<and> calculate_normalized_pressure (buffer_queue example_middle) = Fin (2200 / 21)
   \<and> peak_pressure_diff example_middle = 400 / 63
   \<and> Mean_Arterial_Pressure example_middle = Fin (2200 / 21)"
proof -
  note t = MAP_tracker_monotone
  have r: "session (\<lambda>_. idle_sample)
       (example_start @ Sample peak_sample # Sample close_sample # example_rest) = Some example_final"
    using example_session by (simp add: example_events_def)
  have a: "peak_pressure_diff example_before \<le> peak_pressure_diff example_final"
    using t [of "\<lambda>_. idle_sample" example_start
                "Sample peak_sample # Sample close_sample # example_rest" example_final]
      r example_start_session by simp
  have v: "peak_pressure_diff example_before = 100 / 21" "pressure_diff example_middle = 400 / 63"
    "calculate_normalized_pressure (buffer_queue example_middle) = Fin (2200 / 21)"
    by (simp_all add: example_states normalized_eval)
  have h: "peak_pressure_diff example_before < pressure_diff example_middle
           \<and> (\<exists>n. calculate_normalized_pressure (buffer_queue example_middle) = Fin n
                  \<and> 70 < n \<and> n < 110)"
  proof (intro conjI exI[of _ "2200 / 21"])
    show "peak_pressure_diff example_before < pressure_diff example_middle"
      by (simp add: v)
    show "calculate_normalized_pressure (buffer_queue example_middle) = Fin (2200 / 21)"
      by (rule v)
  qed simp_all
  have "peak_pressure_diff example_middle = pressure_diff example_middle
        \<and> Mean_Arterial_Pressure example_middle
            = calculate_normalized_pressure (buffer_queue example_middle)"
    using t [of _ _ _ _ peak_sample example_before 1225003 example_middle] example_peak_step h
    by blast
  then show ?thesis using r a v example_start_session example_peak_step by simp
qed

subsection \<open>The gradient monitor\<close>

lemma gradient_ISR:
  assumes "5 < iteration s"
  shows "release_rate (check_pressure_gradient_ISR s) = gradient s"
    and "flux_warning (check_pressure_gradient_ISR s) = fp_gt (gradient s) 4"
  using assms by (simp_all add: check_pressure_gradient_ISR_def gradient_def Let_def)

lemma warning_session:
  assumes "session sensor es = Some s"
  shows "flux_warning s = fp_gt (release_rate s) 4"
proof (rule session_invariant[where P = "\<lambda>_. True" and es = es and sensor = sensor
        and I = "\<lambda>s. flux_warning s = fp_gt (release_rate s) 4"])
  show "session sensor es = Some s" by (rule assms)
  show "flux_warning t' = fp_gt (release_rate t') 4"
    if "flux_warning t = fp_gt (release_rate t) 4" "measure_pressure inp t = Some (d, t')"
    for inp t d t'
    using that measure_pressure_frame(1,2)[OF that(2)] by simp
  show "flux_warning (check_pressure_gradient_ISR t) = fp_gt (release_rate (check_pressure_gradient_ISR t)) 4"
    if "flux_warning t = fp_gt (release_rate t) 4" for t
    using that by (simp add: check_pressure_gradient_ISR_def Let_def)
qed (simp_all add: initial_state_def)

text \<open>
  Claim C8. Once \<open>iteration\<close> exceeds 5, an evaluation of the monitor stores the release
  rate (normalized pressure minus \<open>current_pressure\<close>) and sets the warning to whether
  that rate exceeds 4, whatever the warning was before. \<open>measure_pressure\<close> changes
  neither the warning nor the stored rate, so at every point of a session the warning
  tells whether the rate of the last evaluation exceeded 4.
\<close>
theorem gradient_warning_not_latched:
  "(5 < iteration s \<longrightarrow>
      release_rate (check_pressure_gradient_ISR s) = gradient s
      \<and> flux_warning (check_pressure_gradient_ISR s) = fp_gt (gradient s) 4
      \<and> flux_warning (check_pressure_gradient_ISR (s\<lparr> flux_warning := b \<rparr>))
          = flux_warning (check_pressure_gradient_ISR s))
   \<and> (measure_pressure inp s0 = Some (d, s1) \<longrightarrow>
        flux_warning s1 = flux_warning s0 \<and> release_rate s1 = release_rate s0)
   \<and> (session sensor es = Some s' \<longrightarrow> flux_warning s' = fp_gt (release_rate s') 4)"
proof (intro conjI impI)
  assume i: "5 < iteration s"
  show "release_rate (check_pressure_gradient_ISR s) = gradient s"
    "flux_warning (check_pressure_gradient_ISR s) = fp_gt (gradient s) 4"
    using gradient_ISR[OF i] by simp_all
  have "5 < iteration (s\<lparr> flux_warning := b \<rparr>)" using i by simp
  from gradient_ISR(2)[OF this]
  show "flux_warning (check_pressure_gradient_ISR (s\<lparr> flux_warning := b \<rparr>))
          = flux_warning (check_pressure_gradient_ISR s)"
    using gradient_ISR(2)[OF i] by (simp add: gradient_def)
next
  assume m: "measure_pressure inp s0 = Some (d, s1)"
  show "flux_warning s1 = flux_warning s0" "release_rate s1 = release_rate s0"
    using measure_pressure_frame(1,2)[OF m] by simp_all
next
  assume "session sensor es = Some s'"
  then show "flux_warning s' = fp_gt (release_rate s') 4" by (rule warning_session)
qed

theorem gradient_warning_not_latched_witness:
  "5 < iteration (example_final\<lparr> current_pressure := 100 \<rparr>)
   \<and> gradient (example_final\<lparr> current_pressure := 100 \<rparr>) = Fin (20 / 3)
   \<and> release_rate (check_pressure_gradient_ISR (example_final\<lparr> current_pressure := 100 \<rparr>))
       = Fin (20 / 3)
   \<and> flux_warning (check_pressure_gradient_ISR (example_final\<lparr> current_pressure := 100 \<rparr>))
   \<and> 5 < iteration example_final
   \<and> gradient example_final = Fin (40 / 21)
   \<and> \<not> flux_warning (check_pressure_gradient_ISR (example_final\<lparr> flux_warning := True \<rparr>))
   \<and> measure_pressure close_sample example_middle = Some (1171742, example_close)
   \<and> flux_warning example_close = flux_warning example_middle
   \<and> release_rate example_close = release_rate example_middle
   \<and> session (\<lambda>_. idle_sample) example_events = Some example_final
   \<and> flux_warning example_final = fp_gt (release_rate example_final) 4"
proof -
  note t = gradient_warning_not_latched
  have i: "5 < iteration (example_final\<lparr> current_pressure := 100 \<rparr>)" "5 < iteration example_final"
    by (simp_all add: example_states)
  have g: "gradient (example_final\<lparr> current_pressure := 100 \<rparr>) = Fin (20 / 3)"
    "gradient example_final = Fin (40 / 21)"
    by (simp_all add: gradient_def example_states normalized_eval)
  have a: "release_rate (check_pressure_gradient_ISR (example_final\<lparr> current_pressure := 100 \<rparr>))
             = Fin (20 / 3)
           \<and> flux_warning (check_pressure_gradient_ISR (example_final\<lparr> current_pressure := 100 \<rparr>))"
    using t [of "example_final\<lparr> current_pressure := 100 \<rparr>"] i(1) g(1) by simp
  have b: "\<not> flux_warning (check_pressure_gradient_ISR (example_final\<lparr> flux_warning := True \<rparr>))"
    using t [of example_final True] i(2) g(2) by simp
  have c: "flux_warning example_close = flux_warning example_middle
           \<and> release_rate example_close = release_rate example_middle"
    using t [of _ _ close_sample example_middle 1171742 example_close] example_close_step by blast
  have e: "flux_warning example_final = fp_gt (release_rate example_final) 4"
    using t [of _ _ _ _ _ _ "\<lambda>_. idle_sample" example_events example_final] example_session
    by blast
  show ?thesis using i g a b c e example_close_step example_session by simp
qed

subsection \<open>The pulse estimate\<close>





end
